theory Spec2Isabelle
  imports Complex_Main
begin

text \<open>
  A model of the Backburner screener: the indicator functions (\<open>calculateRSI\<close>, the
  extrema search, \<open>detectImpulseMove\<close>, the volume averages), the detector class
  \<open>BackburnerDetector\<close> with its map of live setups, and the \<open>RateLimiter\<close> of the
  market-data client. Each definition follows the source function of the same name.
\<close>

section \<open>Numbers\<close>

text \<open>
  The program computes with JavaScript numbers. Candle fields and thresholds are finite
  numbers and are modelled as reals; a computed value is a \<open>jsnum\<close>: a real, one of
  the two infinities, or NaN, because a division can leave the reals (\<open>0/0\<close> is NaN,
  \<open>x/0\<close> is an infinity). Arithmetic in the definitions of this part is exact: the
  rounding of IEEE doubles, overflow and the sign of zero are not modelled. The section on
  floating-point arithmetic adds the rounding, for the properties of computed numbers.
\<close>

datatype jsnum = Fin real | PInf | NInf | NaN

definition inf_of_sign :: "real \<Rightarrow> jsnum" where
  "inf_of_sign s = (if 0 < s then PInf else if s < 0 then NInf else NaN)"

fun js_neg :: "jsnum \<Rightarrow> jsnum" where
  "js_neg (Fin a) = Fin (- a)"
| "js_neg PInf = NInf"
| "js_neg NInf = PInf"
| "js_neg NaN = NaN"

fun js_add :: "jsnum \<Rightarrow> jsnum \<Rightarrow> jsnum" where
  "js_add (Fin a) (Fin b) = Fin (a + b)"
| "js_add NaN y = NaN"
| "js_add x NaN = NaN"
| "js_add PInf NInf = NaN"
| "js_add NInf PInf = NaN"
| "js_add PInf y = PInf"
| "js_add NInf y = NInf"
| "js_add (Fin a) y = y"

definition js_sub :: "jsnum \<Rightarrow> jsnum \<Rightarrow> jsnum" where
  "js_sub x y = js_add x (js_neg y)"

fun js_mul :: "jsnum \<Rightarrow> jsnum \<Rightarrow> jsnum" where
  "js_mul (Fin a) (Fin b) = Fin (a * b)"
| "js_mul NaN y = NaN"
| "js_mul x NaN = NaN"
| "js_mul PInf (Fin b) = inf_of_sign b"
| "js_mul NInf (Fin b) = inf_of_sign (- b)"
| "js_mul (Fin a) PInf = inf_of_sign a"
| "js_mul (Fin a) NInf = inf_of_sign (- a)"
| "js_mul PInf PInf = PInf"
| "js_mul NInf NInf = PInf"
| "js_mul PInf NInf = NInf"
| "js_mul NInf PInf = NInf"

fun js_div :: "jsnum \<Rightarrow> jsnum \<Rightarrow> jsnum" where
  "js_div (Fin a) (Fin b) = (if b = 0 then inf_of_sign a else Fin (a / b))"
| "js_div NaN y = NaN"
| "js_div x NaN = NaN"
| "js_div (Fin a) y = Fin 0"
| "js_div PInf (Fin b) = (if b < 0 then NInf else PInf)"
| "js_div NInf (Fin b) = (if b < 0 then PInf else NInf)"
| "js_div x y = NaN"

text \<open>Comparisons: every comparison with NaN is false.\<close>

fun js_lt :: "jsnum \<Rightarrow> jsnum \<Rightarrow> bool" where
  "js_lt (Fin a) (Fin b) = (a < b)"
| "js_lt NaN y = False"
| "js_lt x NaN = False"
| "js_lt x NInf = False"
| "js_lt PInf y = False"
| "js_lt x y = True"

fun js_eq :: "jsnum \<Rightarrow> jsnum \<Rightarrow> bool" where
  "js_eq NaN y = False"
| "js_eq x NaN = False"
| "js_eq x y = (x = y)"

definition js_le :: "jsnum \<Rightarrow> jsnum \<Rightarrow> bool" where
  "js_le x y = (js_lt x y \<or> js_eq x y)"

definition js_gt :: "jsnum \<Rightarrow> jsnum \<Rightarrow> bool" where
  "js_gt x y = js_lt y x"

definition js_ge :: "jsnum \<Rightarrow> jsnum \<Rightarrow> bool" where
  "js_ge x y = js_le y x"

text \<open>Reading a property of \<open>undefined\<close> raises a TypeError.\<close>

datatype error = TypeError

section \<open>Indicator library\<close>

record Candle =
  timestamp :: int
  c_open :: real
  high :: real
  low :: real
  close :: real
  volume :: real

record RSIResult =
  rsi_value :: jsnum
  rsi_timestamp :: int

text \<open>
  \<open>Array.prototype.slice\<close> with a start counted from the end, \<open>xs.slice(-k)\<close>: the
  last \<open>k\<close> elements, all of them when \<open>k\<close> exceeds the length; \<open>-0\<close> is \<open>0\<close>,
  so \<open>xs.slice(-0)\<close> is the whole array.
\<close>

definition slice_last :: "nat \<Rightarrow> 'a list \<Rightarrow> 'a list" where
  "slice_last k xs = (if k = 0 then xs else drop (length xs - k) xs)"

text \<open>\<open>xs.slice(a, b)\<close> for indices \<open>0 \<le> a\<close>, \<open>0 \<le> b\<close>.\<close>

definition slice :: "'a list \<Rightarrow> nat \<Rightarrow> nat \<Rightarrow> 'a list" where
  "slice xs a b = take (b - a) (drop a xs)"

subsection \<open>calculateRSI\<close>

text \<open>
  The first loop of \<open>calculateRSI\<close>: the change of the close from each candle to the
  next, split into its gain and its loss.
\<close>

fun close_changes :: "Candle list \<Rightarrow> real list" where
  "close_changes (a # b # cs) = (close b - close a) # close_changes (b # cs)"
| "close_changes cs = []"

definition gain_of :: "real \<Rightarrow> real" where
  "gain_of change = (if change > 0 then change else 0)"

definition loss_of :: "real \<Rightarrow> real" where
  "loss_of change = (if change < 0 then \<bar>change\<bar> else 0)"

definition rsi_of :: "jsnum \<Rightarrow> jsnum \<Rightarrow> jsnum" where
  "rsi_of avgGain avgLoss =
     (if js_eq avgLoss (Fin 0) then Fin 100
      else js_sub (Fin 100) (js_div (Fin 100) (js_add (Fin 1) (js_div avgGain avgLoss))))"

definition wilder :: "nat \<Rightarrow> jsnum \<Rightarrow> real \<Rightarrow> jsnum" where
  "wilder period avg x =
     js_div (js_add (js_mul avg (Fin (real period - 1))) (Fin x)) (Fin (real period))"

text \<open>
  The second loop, \<open>for (i = period; i < gains.length; i++)\<close>: it is entered with the
  gains and losses from index \<open>period\<close> on and the candles from index \<open>period + 1\<close> on,
  and pushes one result per step.
\<close>

fun calculateRSI_loop ::
  "nat \<Rightarrow> jsnum \<Rightarrow> jsnum \<Rightarrow> real list \<Rightarrow> real list \<Rightarrow> Candle list \<Rightarrow> RSIResult list" where
  "calculateRSI_loop period avgGain avgLoss (g # gs) (l # ls) (c # cs) =
     \<lparr>rsi_value = rsi_of (wilder period avgGain g) (wilder period avgLoss l),
      rsi_timestamp = timestamp c\<rparr>
       # calculateRSI_loop period (wilder period avgGain g) (wilder period avgLoss l) gs ls cs"
| "calculateRSI_loop period avgGain avgLoss gs ls cs = []"

definition calculateRSI :: "Candle list \<Rightarrow> nat \<Rightarrow> RSIResult list" where
  "calculateRSI candles period =
     (if length candles < period + 1 then []
      else
        let gains = map gain_of (close_changes candles);
            losses = map loss_of (close_changes candles);
            avgGain = js_div (Fin (sum_list (take period gains))) (Fin (real period));
            avgLoss = js_div (Fin (sum_list (take period losses))) (Fin (real period))
        in \<lparr>rsi_value = rsi_of avgGain avgLoss, rsi_timestamp = timestamp (candles ! period)\<rparr>
             # calculateRSI_loop period avgGain avgLoss
                 (drop period gains) (drop period losses) (drop (period + 1) candles))"

definition getCurrentRSI :: "Candle list \<Rightarrow> nat \<Rightarrow> jsnum option" where
  "getCurrentRSI candles period =
     (let rsiValues = calculateRSI candles period
      in if length rsiValues = 0 then None else Some (rsi_value (last rsiValues)))"

subsection \<open>Moving average, volume, extrema\<close>

text \<open>
  \<open>calculateSMA\<close>: \<open>i\<close> runs from \<open>period - 1\<close>, which is \<open>-1\<close> for a period of
  \<open>0\<close>, to the last index; each step divides the sum of
  \<open>values.slice(i - period + 1, i + 1)\<close> by the period.
\<close>

definition calculateSMA :: "real list \<Rightarrow> nat \<Rightarrow> jsnum list" where
  "calculateSMA vals period =
     map (\<lambda>i. js_div (Fin (sum_list (slice vals (nat (i - int period + 1)) (nat (i + 1)))))
                 (Fin (real period)))
       [int period - 1 .. int (length vals) - 1]"

definition calculateAvgVolume :: "Candle list \<Rightarrow> nat \<Rightarrow> jsnum" where
  "calculateAvgVolume candles period =
     (if length candles < period
      then js_div (Fin (sum_list (map volume candles))) (Fin (real (length candles)))
      else
        let recentCandles = slice_last period candles
        in js_div (Fin (sum_list (map volume recentCandles))) (Fin (real period)))"

record Extremum =
  price :: real
  index :: nat
  ext_timestamp :: int

text \<open>
  The scans of \<open>findHighestHigh\<close> and \<open>findLowestLow\<close> from index \<open>1\<close>: the candidate
  is replaced only by a strictly higher high (a strictly lower low).
\<close>

fun findHighestHigh_loop :: "Candle list \<Rightarrow> nat \<Rightarrow> Candle \<Rightarrow> nat \<Rightarrow> Candle \<times> nat" where
  "findHighestHigh_loop [] i highest highestIndex = (highest, highestIndex)"
| "findHighestHigh_loop (c # cs) i highest highestIndex =
     (if high c > high highest then findHighestHigh_loop cs (i + 1) c i
      else findHighestHigh_loop cs (i + 1) highest highestIndex)"

definition findHighestHigh :: "Candle list \<Rightarrow> error + Extremum" where
  "findHighestHigh candles =
     (case candles of
        [] \<Rightarrow> Inl TypeError
      | c0 # rest \<Rightarrow>
          (case findHighestHigh_loop rest 1 c0 0 of
             (highest, highestIndex) \<Rightarrow>
               Inr \<lparr>price = high highest, index = highestIndex,
                    ext_timestamp = timestamp highest\<rparr>))"

fun findLowestLow_loop :: "Candle list \<Rightarrow> nat \<Rightarrow> Candle \<Rightarrow> nat \<Rightarrow> Candle \<times> nat" where
  "findLowestLow_loop [] i lowest lowestIndex = (lowest, lowestIndex)"
| "findLowestLow_loop (c # cs) i lowest lowestIndex =
     (if low c < low lowest then findLowestLow_loop cs (i + 1) c i
      else findLowestLow_loop cs (i + 1) lowest lowestIndex)"

definition findLowestLow :: "Candle list \<Rightarrow> error + Extremum" where
  "findLowestLow candles =
     (case candles of
        [] \<Rightarrow> Inl TypeError
      | c0 # rest \<Rightarrow>
          (case findLowestLow_loop rest 1 c0 0 of
             (lowest, lowestIndex) \<Rightarrow>
               Inr \<lparr>price = low lowest, index = lowestIndex,
                    ext_timestamp = timestamp lowest\<rparr>))"

definition isVolumeContracting :: "Candle list \<Rightarrow> Candle list \<Rightarrow> bool" where
  "isVolumeContracting impulseCandles pullbackCandles =
     (if length impulseCandles = 0 \<or> length pullbackCandles = 0 then False
      else
        let impulseAvgVol =
              js_div (Fin (sum_list (map volume impulseCandles)))
                (Fin (real (length impulseCandles)));
            pullbackAvgVol =
              js_div (Fin (sum_list (map volume pullbackCandles)))
                (Fin (real (length pullbackCandles)))
        in js_lt pullbackAvgVol (js_mul impulseAvgVol (Fin (8 / 10))))"

text \<open>
  \<open>isHigherTFBullish\<close>; the detector calls it with the default \<open>smaPeriod = 20\<close>.
  Its last candle is read after the length check only, so an empty series with a period
  of \<open>0\<close> reaches \<open>candles[-1].close\<close>.
\<close>

definition isHigherTFBullish :: "Candle list \<Rightarrow> nat \<Rightarrow> error + bool" where
  "isHigherTFBullish candles smaPeriod =
     (if length candles < smaPeriod then Inr False
      else
        let closes = map close candles;
            sma = calculateSMA closes smaPeriod
        in if length sma = 0 then Inr False
           else if candles = [] then Inl TypeError
           else Inr (js_gt (Fin (close (last candles))) (last sma)))"

section \<open>Structural-move detector\<close>

datatype Direction = up | down

record Move =
  startIndex :: nat
  endIndex :: nat
  startPrice :: real
  endPrice :: real
  percentMove :: jsnum
  direction :: Direction

text \<open>
  The second test of \<open>detectImpulseMove\<close>, for a downward impulse. It is reached when
  the first test fails, and also when the upward candidate is too small.
\<close>

definition downward_move :: "Extremum \<Rightarrow> Extremum \<Rightarrow> real \<Rightarrow> Move option" where
  "downward_move highest lowest minPercentMove =
     (if index lowest > index highest
      then
        let pm = js_mul (js_div (Fin (price highest - price lowest)) (Fin (price highest)))
                   (Fin 100)
        in if js_ge pm (Fin minPercentMove)
           then Some \<lparr>startIndex = index highest, endIndex = index lowest,
                       startPrice = price highest, endPrice = price lowest,
                       percentMove = pm, direction = down\<rparr>
           else None
      else None)"

definition detectImpulseMove :: "Candle list \<Rightarrow> real \<Rightarrow> nat \<Rightarrow> error + Move option" where
  "detectImpulseMove candles minPercentMove lookbackPeriod =
     (if length candles < lookbackPeriod then Inr None
      else
        let recentCandles = slice_last lookbackPeriod candles
        in case findHighestHigh recentCandles of
             Inl e \<Rightarrow> Inl e
           | Inr highest \<Rightarrow>
               (case findLowestLow recentCandles of
                  Inl e \<Rightarrow> Inl e
                | Inr lowest \<Rightarrow>
                    if index highest > index lowest
                    then
                      let pm = js_mul (js_div (Fin (price highest - price lowest))
                                         (Fin (price lowest)))
                                 (Fin 100)
                      in if js_ge pm (Fin minPercentMove)
                         then Inr (Some \<lparr>startIndex = index lowest, endIndex = index highest,
                                         startPrice = price lowest, endPrice = price highest,
                                         percentMove = pm, direction = up\<rparr>)
                         else Inr (downward_move highest lowest minPercentMove)
                    else Inr (downward_move highest lowest minPercentMove)))"

section \<open>Setup state machine\<close>

datatype Timeframe = tf_5m | tf_15m | tf_1h | tf_4h | tf_1d

fun timeframe_string :: "Timeframe \<Rightarrow> string" where
  "timeframe_string tf_5m = ''5m''"
| "timeframe_string tf_15m = ''15m''"
| "timeframe_string tf_1h = ''1h''"
| "timeframe_string tf_4h = ''4h''"
| "timeframe_string tf_1d = ''1d''"

datatype SetupState = watching | triggered | deep_oversold | bouncing | played_out

record BackburnerSetup =
  symbol :: string
  timeframe :: Timeframe
  state :: SetupState
  impulseHigh :: real
  impulseLow :: real
  impulseStartTime :: int
  impulseEndTime :: int
  impulsePercentMove :: jsnum
  currentRSI :: jsnum
  rsiAtTrigger :: jsnum
  currentPrice :: real
  entryPrice :: "real option"
  detectedAt :: int
  triggeredAt :: "int option"
  lastUpdated :: int
  impulseAvgVolume :: jsnum
  pullbackAvgVolume :: jsnum
  volumeContracting :: bool
  higherTFBullish :: "bool option"

text \<open>
  The numeric parameters of \<open>DEFAULT_CONFIG\<close> that the detector reads. The constructor
  merges any overrides into them, so every definition below takes the configuration as
  a parameter.
\<close>

record Config =
  rsiPeriod :: nat
  rsiOversoldThreshold :: real
  rsiDeepOversoldThreshold :: real
  minImpulsePercent :: real

text \<open>\<open>activeSetups\<close>: the map from a key to the live record of that key.\<close>

type_synonym Store = "string \<rightharpoonup> BackburnerSetup"

definition getSetupKey :: "string \<Rightarrow> Timeframe \<Rightarrow> string" where
  "getSetupKey smb tf = smb @ ''-'' @ timeframe_string tf"

definition isFirstOversoldAfterImpulse :: "Config \<Rightarrow> RSIResult list \<Rightarrow> nat \<Rightarrow> nat \<Rightarrow> bool" where
  "isFirstOversoldAfterImpulse cfg rsiValues impulseEndIndex totalCandles =
     (let rsiOffset = int totalCandles - int (length rsiValues);
          startRSIIndex = nat (max 0 (int impulseEndIndex - rsiOffset));
          oversoldCount =
            length (filter (\<lambda>r. js_lt (rsi_value r) (Fin (rsiOversoldThreshold cfg)))
                      (drop startRSIIndex rsiValues))
      in oversoldCount \<le> 1)"

text \<open>
  \<open>isSetupInvalidated\<close> reads the close of the last candle again; \<open>analyzeSymbol\<close>
  hands it at least 50 candles.
\<close>

definition isSetupInvalidated :: "Config \<Rightarrow> BackburnerSetup \<Rightarrow> Candle list \<Rightarrow> bool" where
  "isSetupInvalidated cfg setup candles =
     (let price_now = close (last candles)
      in if price_now < impulseLow setup then True
         else if (state setup = triggered \<or> state setup = deep_oversold)
                 \<and> price_now \<ge> impulseHigh setup * (99 / 100) then True
         else if state setup = bouncing
                 \<and> js_lt (currentRSI setup) (Fin (rsiOversoldThreshold cfg)) then True
         else False)"

definition determineSetupState :: "Config \<Rightarrow> BackburnerSetup \<Rightarrow> jsnum \<Rightarrow> SetupState" where
  "determineSetupState cfg setup rsi =
     (let prevState = state setup
      in if js_lt rsi (Fin (rsiDeepOversoldThreshold cfg)) then deep_oversold
         else if js_lt rsi (Fin (rsiOversoldThreshold cfg)) then triggered
         else if prevState = triggered \<or> prevState = deep_oversold
         then (if js_gt rsi (Fin 40) then played_out else bouncing)
         else if prevState = bouncing
         then (if js_gt rsi (Fin 50) then played_out else bouncing)
         else state setup)"

text \<open>
  \<open>updateExistingSetup\<close> mutates the record it was handed, which is the object the map
  holds under the key of the call (\<open>key0\<close>), and then deletes or sets the entry under
  the key made from the record's own symbol and timeframe. Both keys are kept apart
  here; \<open>now\<close> is the reading of the clock.
\<close>

definition updateExistingSetup ::
  "Config \<Rightarrow> int \<Rightarrow> Store \<Rightarrow> string \<Rightarrow> BackburnerSetup \<Rightarrow> Candle list \<Rightarrow> jsnum \<Rightarrow> real
     \<Rightarrow> bool option \<Rightarrow> BackburnerSetup option \<times> Store" where
  "updateExistingSetup cfg now store key0 setup candles rsi price_now htf =
     (let key = getSetupKey (symbol setup) (timeframe setup);
          setup1 = setup\<lparr>currentRSI := rsi, currentPrice := price_now, lastUpdated := now,
                         higherTFBullish :=
                           (case htf of None \<Rightarrow> higherTFBullish setup | Some b \<Rightarrow> Some b)\<rparr>
      in if isSetupInvalidated cfg setup1 candles
         then let setup2 = setup1\<lparr>state := played_out\<rparr>
              in (Some setup2, (store(key0 \<mapsto> setup2))(key := None))
         else let setup2 = setup1\<lparr>state := determineSetupState cfg setup1 rsi\<rparr>
              in if state setup2 = played_out
                 then (Some setup2, (store(key0 \<mapsto> setup2))(key := None))
                 else (Some setup2, (store(key0 \<mapsto> setup2))(key \<mapsto> setup2)))"

text \<open>
  \<open>detectNewSetup\<close>. The impulse is looked for with the default lookback of \<open>50\<close>
  candles of \<open>detectImpulseMove\<close>; its indices count from the start of that window and
  are used on the whole series.
\<close>

definition detectNewSetup ::
  "Config \<Rightarrow> int \<Rightarrow> Store \<Rightarrow> string \<Rightarrow> Timeframe \<Rightarrow> Candle list \<Rightarrow> RSIResult list \<Rightarrow> jsnum
     \<Rightarrow> real \<Rightarrow> bool option \<Rightarrow> error + BackburnerSetup option \<times> Store" where
  "detectNewSetup cfg now store smb tf candles rsiValues rsi price_now htf =
     (case detectImpulseMove candles (minImpulsePercent cfg) 50 of
        Inl e \<Rightarrow> Inl e
      | Inr None \<Rightarrow> Inr (None, store)
      | Inr (Some impulse) \<Rightarrow>
          if direction impulse \<noteq> up then Inr (None, store)
          else if price_now \<ge> endPrice impulse then Inr (None, store)
          else if price_now \<le> startPrice impulse then Inr (None, store)
          else
            let isFirstOversold =
                  isFirstOversoldAfterImpulse cfg rsiValues (endIndex impulse) (length candles)
            in if \<not> isFirstOversold \<and> js_ge rsi (Fin (rsiOversoldThreshold cfg))
               then Inr (None, store)
               else
                 let impulseCandles = slice candles (startIndex impulse) (endIndex impulse + 1);
                     pullbackCandles = drop (endIndex impulse + 1) candles;
                     contracting = isVolumeContracting impulseCandles pullbackCandles;
                     st = (if js_lt rsi (Fin (rsiDeepOversoldThreshold cfg)) then deep_oversold
                           else if js_lt rsi (Fin (rsiOversoldThreshold cfg)) then triggered
                           else watching)
                 in if st = watching then Inr (None, store)
                    else if length candles \<le> startIndex impulse \<or> length candles \<le> endIndex impulse
                    then Inl TypeError
                    else
                      let isActionable = (st = triggered \<or> st = deep_oversold);
                          setup =
                            \<lparr>symbol = smb, timeframe = tf, state = st,
                             impulseHigh = endPrice impulse, impulseLow = startPrice impulse,
                             impulseStartTime = timestamp (candles ! startIndex impulse),
                             impulseEndTime = timestamp (candles ! endIndex impulse),
                             impulsePercentMove = percentMove impulse,
                             currentRSI = rsi, rsiAtTrigger = rsi, currentPrice = price_now,
                             entryPrice = (if isActionable then Some price_now else None),
                             detectedAt = now,
                             triggeredAt = (if isActionable then Some now else None),
                             lastUpdated = now,
                             impulseAvgVolume =
                               calculateAvgVolume impulseCandles (length impulseCandles),
                             pullbackAvgVolume =
                               calculateAvgVolume pullbackCandles (length pullbackCandles),
                             volumeContracting = contracting,
                             higherTFBullish = htf\<rparr>
                      in Inr (Some setup, store(getSetupKey smb tf \<mapsto> setup)))"

definition analyzeSymbol ::
  "Config \<Rightarrow> int \<Rightarrow> Store \<Rightarrow> string \<Rightarrow> Timeframe \<Rightarrow> Candle list \<Rightarrow> Candle list option
     \<Rightarrow> error + BackburnerSetup option \<times> Store" where
  "analyzeSymbol cfg now store smb tf candles higherTFCandles =
     (if length candles < 50 then Inr (None, store)
      else
        let key = getSetupKey smb tf;
            existingSetup = store key;
            rsiValues = calculateRSI candles (rsiPeriod cfg);
            rsi_now = getCurrentRSI candles (rsiPeriod cfg)
        in case rsi_now of
             None \<Rightarrow> Inr (None, store)
           | Some rsi \<Rightarrow>
               if length rsiValues < 5 then Inr (None, store)
               else
                 let price_now = close (last candles)
                 in case (case higherTFCandles of
                            None \<Rightarrow> Inr None
                          | Some hc \<Rightarrow> map_sum id Some (isHigherTFBullish hc 20)) of
                      Inl e \<Rightarrow> Inl e
                    | Inr htf \<Rightarrow>
                        (case existingSetup of
                           Some setup \<Rightarrow>
                             Inr (updateExistingSetup cfg now store key setup candles rsi
                                    price_now htf)
                         | None \<Rightarrow>
                             detectNewSetup cfg now store smb tf candles rsiValues rsi
                               price_now htf))"

definition removeSetup :: "Store \<Rightarrow> string \<Rightarrow> Timeframe \<Rightarrow> Store" where
  "removeSetup store smb tf = store(getSetupKey smb tf := None)"

definition clearAllSetups :: "Store \<Rightarrow> Store" where
  "clearAllSetups store = Map.empty"

subsection \<open>Sequences of public operations\<close>

text \<open>
  The operations that change \<open>activeSetups\<close>, and a run of them from the empty map of a
  fresh detector. A call that raised would end the run.
\<close>

datatype Operation =
    Analyze int string Timeframe "Candle list" "Candle list option"
  | Remove string Timeframe
  | ClearAll

fun perform :: "Config \<Rightarrow> Store \<Rightarrow> Operation \<Rightarrow> error + Store" where
  "perform cfg store (Analyze now smb tf candles higherTFCandles) =
     map_sum id snd (analyzeSymbol cfg now store smb tf candles higherTFCandles)"
| "perform cfg store (Remove smb tf) = Inr (removeSetup store smb tf)"
| "perform cfg store ClearAll = Inr (clearAllSetups store)"

fun perform_all :: "Config \<Rightarrow> Store \<Rightarrow> Operation list \<Rightarrow> error + Store" where
  "perform_all cfg store [] = Inr store"
| "perform_all cfg store (op # ops) =
     (case perform cfg store op of
        Inl e \<Rightarrow> Inl e
      | Inr store' \<Rightarrow> perform_all cfg store' ops)"

definition live_state :: "SetupState \<Rightarrow> bool" where
  "live_state st = (st = triggered \<or> st = deep_oversold \<or> st = bouncing)"

definition store_inv :: "Store \<Rightarrow> bool" where
  "store_inv store =
     (\<forall>k r. store k = Some r \<longrightarrow>
        k = getSetupKey (symbol r) (timeframe r) \<and> live_state (state r))"

section \<open>Rate limiter\<close>

text \<open>
  \<open>RateLimiter\<close> runs on JavaScript's single thread, so its state changes only at three
  kinds of event, each at a reading \<open>now\<close> of the clock: a call of \<open>execute\<close>, the timer
  of an \<open>await sleep(...)\<close> firing, and the promise of a dispatched \<open>fn()\<close> settling.
  Requests are named by numbers. Besides the fields of the class the state holds the
  requests suspended in \<open>sleep\<close> with the time their timer is due, the requests in
  flight, and a log of every dispatch with its time.
\<close>

record Limiter =
  maxConcurrent :: nat
  minDelayMs :: int
  queue :: "nat list"
  running :: nat
  lastRequestTime :: int
  sleeping :: "(nat \<times> int) list"
  in_flight :: "nat list"
  dispatched :: "(nat \<times> int) list"

text \<open>The part of \<open>run\<close> after the delay: \<open>running++\<close>, the time stamp, the call of \<open>fn\<close>.\<close>

definition dispatch :: "int \<Rightarrow> nat \<Rightarrow> Limiter \<Rightarrow> Limiter" where
  "dispatch now rid l =
     l\<lparr>running := running l + 1, lastRequestTime := now,
       in_flight := in_flight l @ [rid], dispatched := dispatched l @ [(rid, now)]\<rparr>"

text \<open>The start of \<open>run\<close>: it suspends in \<open>sleep\<close> before \<open>running\<close> is incremented.\<close>

definition run :: "int \<Rightarrow> nat \<Rightarrow> Limiter \<Rightarrow> Limiter" where
  "run now rid l =
     (let timeSinceLastRequest = now - lastRequestTime l
      in if timeSinceLastRequest < minDelayMs l
         then l\<lparr>sleeping := sleeping l @ [(rid, now + (minDelayMs l - timeSinceLastRequest))]\<rparr>
         else dispatch now rid l)"

definition execute :: "int \<Rightarrow> nat \<Rightarrow> Limiter \<Rightarrow> Limiter" where
  "execute now rid l =
     (if running l < maxConcurrent l then run now rid l
      else l\<lparr>queue := queue l @ [rid]\<rparr>)"

definition processQueue :: "int \<Rightarrow> Limiter \<Rightarrow> Limiter" where
  "processQueue now l =
     (if length (queue l) > 0 \<and> running l < maxConcurrent l
      then (case queue l of
              [] \<Rightarrow> l
            | nxt # rest \<Rightarrow> run now nxt (l\<lparr>queue := rest\<rparr>))
      else l)"

text \<open>The timer of a sleeping request fires: the rest of \<open>run\<close> is executed.\<close>

definition timer_fires :: "int \<Rightarrow> nat \<Rightarrow> Limiter \<Rightarrow> Limiter" where
  "timer_fires now rid l =
     dispatch now rid (l\<lparr>sleeping := filter (\<lambda>e. fst e \<noteq> rid) (sleeping l)\<rparr>)"

text \<open>The \<open>finally\<close> block of \<open>run\<close>, when \<open>fn()\<close> has settled.\<close>

definition settles :: "int \<Rightarrow> nat \<Rightarrow> Limiter \<Rightarrow> Limiter" where
  "settles now rid l =
     processQueue now (l\<lparr>running := running l - 1, in_flight := remove1 rid (in_flight l)\<rparr>)"

datatype Event = Execute nat | TimerFires nat | Settles nat

text \<open>
  One event at time \<open>now\<close>; \<open>None\<close> when the event cannot happen in this state (a timer
  that is not due, a request that is not in flight).
\<close>

fun limiter_step :: "Limiter \<Rightarrow> int \<times> Event \<Rightarrow> Limiter option" where
  "limiter_step l (now, Execute rid) = Some (execute now rid l)"
| "limiter_step l (now, TimerFires rid) =
     (case map_of (sleeping l) rid of
        None \<Rightarrow> None
      | Some due \<Rightarrow> if due \<le> now then Some (timer_fires now rid l) else None)"
| "limiter_step l (now, Settles rid) =
     (if rid \<in> set (in_flight l) then Some (settles now rid l) else None)"

text \<open>A run of events from time \<open>t\<close> on; the clock never goes back.\<close>

fun limiter_run :: "Limiter \<Rightarrow> int \<Rightarrow> (int \<times> Event) list \<Rightarrow> Limiter option" where
  "limiter_run l t [] = Some l"
| "limiter_run l t ((now, ev) # es) =
     (if now < t then None
      else case limiter_step l (now, ev) of
             None \<Rightarrow> None
           | Some l' \<Rightarrow> limiter_run l' now es)"

text \<open>\<open>new RateLimiter(10, 50)\<close>\<close>

definition rateLimiter :: Limiter where
  "rateLimiter =
     \<lparr>maxConcurrent = 10, minDelayMs = 50, queue = [], running = 0, lastRequestTime = 0,
      sleeping = [], in_flight = [], dispatched = []\<rparr>"

text \<open>
  Twenty requests submitted in one tick at time 1000, as \<open>batchGetKlines\<close> submits its
  symbols, and the nineteen timers firing 50 time units later.
\<close>

definition burst :: "(int \<times> Event) list" where
  "burst = map (\<lambda>i. (1000, Execute i)) (0 # 1 # [2..<20])
           @ map (\<lambda>i. (1050, TimerFires i)) (1 # [2..<20])"

section \<open>Floating-point arithmetic\<close>

text \<open>
  JavaScript's numbers are IEEE 754 doubles: each of \<open>+\<close>, \<open>-\<close>, \<open>*\<close> and \<open>/\<close> returns
  the exact result rounded to a double, an infinity when the exact result is beyond the
  range. The definitions of this section take that rounding as a parameter \<open>rnd\<close>, the
  function from the exact result of an operation to the number the program gets, and
  round after every operation as the program does. What is proved of them is proved for
  every \<open>rnd\<close>, and so for the rounding of the doubles. With \<open>rnd = Fin\<close> nothing is
  rounded: that is the exact arithmetic of the definitions above (lemmas
  \<open>calculateRSI_fl_exact\<close>, \<open>detectImpulseMove_fl_exact\<close>,
  \<open>updateExistingSetup_fl_exact\<close>). Comparisons are exact in both. A literal that is
  not a double, such as \<open>0.99\<close>, is the double \<open>rnd (99 / 100)\<close>. The sign of a zero
  is not kept: only a division by that zero shows it, and the functions of this section
  divide by a candle field, by the period, by an average loss tested against 0, or by a
  number that is at least 1.
\<close>

type_synonym rounding = "real \<Rightarrow> jsnum"

definition round_result :: "rounding \<Rightarrow> jsnum \<Rightarrow> jsnum" where
  "round_result rnd x = (case x of Fin r \<Rightarrow> rnd r | PInf \<Rightarrow> PInf | NInf \<Rightarrow> NInf | NaN \<Rightarrow> NaN)"

definition fl_add :: "rounding \<Rightarrow> jsnum \<Rightarrow> jsnum \<Rightarrow> jsnum" where
  "fl_add rnd x y = round_result rnd (js_add x y)"

definition fl_sub :: "rounding \<Rightarrow> jsnum \<Rightarrow> jsnum \<Rightarrow> jsnum" where
  "fl_sub rnd x y = round_result rnd (js_sub x y)"

definition fl_mul :: "rounding \<Rightarrow> jsnum \<Rightarrow> jsnum \<Rightarrow> jsnum" where
  "fl_mul rnd x y = round_result rnd (js_mul x y)"

definition fl_div :: "rounding \<Rightarrow> jsnum \<Rightarrow> jsnum \<Rightarrow> jsnum" where
  "fl_div rnd x y = round_result rnd (js_div x y)"

text \<open>\<open>Math.abs\<close>\<close>

fun js_abs :: "jsnum \<Rightarrow> jsnum" where
  "js_abs (Fin a) = Fin \<bar>a\<bar>"
| "js_abs PInf = PInf"
| "js_abs NInf = PInf"
| "js_abs NaN = NaN"

text \<open>\<open>xs.reduce((a, b) => a + b, 0)\<close>: the sum from the left, rounded at every step.\<close>

definition fl_sum :: "rounding \<Rightarrow> jsnum list \<Rightarrow> jsnum" where
  "fl_sum rnd xs = foldl (fl_add rnd) (Fin 0) xs"

subsection \<open>calculateRSI in floating point\<close>

fun close_changes_fl :: "rounding \<Rightarrow> Candle list \<Rightarrow> jsnum list" where
  "close_changes_fl rnd (a # b # cs) =
     fl_sub rnd (Fin (close b)) (Fin (close a)) # close_changes_fl rnd (b # cs)"
| "close_changes_fl rnd cs = []"

definition gain_of_fl :: "jsnum \<Rightarrow> jsnum" where
  "gain_of_fl change = (if js_gt change (Fin 0) then change else Fin 0)"

definition loss_of_fl :: "jsnum \<Rightarrow> jsnum" where
  "loss_of_fl change = (if js_lt change (Fin 0) then js_abs change else Fin 0)"

definition rsi_of_fl :: "rounding \<Rightarrow> jsnum \<Rightarrow> jsnum \<Rightarrow> jsnum" where
  "rsi_of_fl rnd avgGain avgLoss =
     (if js_eq avgLoss (Fin 0) then Fin 100
      else fl_sub rnd (Fin 100)
             (fl_div rnd (Fin 100) (fl_add rnd (Fin 1) (fl_div rnd avgGain avgLoss))))"

definition wilder_fl :: "rounding \<Rightarrow> nat \<Rightarrow> jsnum \<Rightarrow> jsnum \<Rightarrow> jsnum" where
  "wilder_fl rnd period avg x =
     fl_div rnd (fl_add rnd (fl_mul rnd avg (fl_sub rnd (Fin (real period)) (Fin 1))) x)
       (Fin (real period))"

fun calculateRSI_loop_fl ::
  "rounding \<Rightarrow> nat \<Rightarrow> jsnum \<Rightarrow> jsnum \<Rightarrow> jsnum list \<Rightarrow> jsnum list \<Rightarrow> Candle list
     \<Rightarrow> RSIResult list" where
  "calculateRSI_loop_fl rnd period avgGain avgLoss (g # gs) (l # ls) (c # cs) =
     \<lparr>rsi_value = rsi_of_fl rnd (wilder_fl rnd period avgGain g) (wilder_fl rnd period avgLoss l),
      rsi_timestamp = timestamp c\<rparr>
       # calculateRSI_loop_fl rnd period (wilder_fl rnd period avgGain g)
           (wilder_fl rnd period avgLoss l) gs ls cs"
| "calculateRSI_loop_fl rnd period avgGain avgLoss gs ls cs = []"

definition calculateRSI_fl :: "rounding \<Rightarrow> Candle list \<Rightarrow> nat \<Rightarrow> RSIResult list" where
  "calculateRSI_fl rnd candles period =
     (if length candles < period + 1 then []
      else
        let gains = map gain_of_fl (close_changes_fl rnd candles);
            losses = map loss_of_fl (close_changes_fl rnd candles);
            avgGain = fl_div rnd (fl_sum rnd (take period gains)) (Fin (real period));
            avgLoss = fl_div rnd (fl_sum rnd (take period losses)) (Fin (real period))
        in \<lparr>rsi_value = rsi_of_fl rnd avgGain avgLoss,
            rsi_timestamp = timestamp (candles ! period)\<rparr>
             # calculateRSI_loop_fl rnd period avgGain avgLoss
                 (drop period gains) (drop period losses) (drop (period + 1) candles))"

subsection \<open>detectImpulseMove in floating point\<close>

definition downward_move_fl :: "rounding \<Rightarrow> Extremum \<Rightarrow> Extremum \<Rightarrow> real \<Rightarrow> Move option" where
  "downward_move_fl rnd highest lowest minPercentMove =
     (if index lowest > index highest
      then
        let pm = fl_mul rnd
                   (fl_div rnd (fl_sub rnd (Fin (price highest)) (Fin (price lowest)))
                      (Fin (price highest)))
                   (Fin 100)
        in if js_ge pm (Fin minPercentMove)
           then Some \<lparr>startIndex = index highest, endIndex = index lowest,
                       startPrice = price highest, endPrice = price lowest,
                       percentMove = pm, direction = down\<rparr>
           else None
      else None)"

definition detectImpulseMove_fl ::
  "rounding \<Rightarrow> Candle list \<Rightarrow> real \<Rightarrow> nat \<Rightarrow> error + Move option" where
  "detectImpulseMove_fl rnd candles minPercentMove lookbackPeriod =
     (if length candles < lookbackPeriod then Inr None
      else
        let recentCandles = slice_last lookbackPeriod candles
        in case findHighestHigh recentCandles of
             Inl e \<Rightarrow> Inl e
           | Inr highest \<Rightarrow>
               (case findLowestLow recentCandles of
                  Inl e \<Rightarrow> Inl e
                | Inr lowest \<Rightarrow>
                    if index highest > index lowest
                    then
                      let pm = fl_mul rnd
                                 (fl_div rnd (fl_sub rnd (Fin (price highest)) (Fin (price lowest)))
                                    (Fin (price lowest)))
                                 (Fin 100)
                      in if js_ge pm (Fin minPercentMove)
                         then Inr (Some \<lparr>startIndex = index lowest, endIndex = index highest,
                                         startPrice = price lowest, endPrice = price highest,
                                         percentMove = pm, direction = up\<rparr>)
                         else Inr (downward_move_fl rnd highest lowest minPercentMove)
                    else Inr (downward_move_fl rnd highest lowest minPercentMove)))"

subsection \<open>The update of a record in floating point\<close>

text \<open>
  The only arithmetic of the update is the product \<open>setup.impulseHigh * 0.99\<close> of
  \<open>isSetupInvalidated\<close>; \<open>determineSetupState\<close> only compares.
\<close>

definition isSetupInvalidated_fl ::
  "rounding \<Rightarrow> Config \<Rightarrow> BackburnerSetup \<Rightarrow> Candle list \<Rightarrow> bool" where
  "isSetupInvalidated_fl rnd cfg setup candles =
     (let price_now = close (last candles)
      in if price_now < impulseLow setup then True
         else if (state setup = triggered \<or> state setup = deep_oversold)
                 \<and> js_ge (Fin price_now) (fl_mul rnd (Fin (impulseHigh setup)) (rnd (99 / 100)))
         then True
         else if state setup = bouncing
                 \<and> js_lt (currentRSI setup) (Fin (rsiOversoldThreshold cfg)) then True
         else False)"

definition updateExistingSetup_fl ::
  "rounding \<Rightarrow> Config \<Rightarrow> int \<Rightarrow> Store \<Rightarrow> string \<Rightarrow> BackburnerSetup \<Rightarrow> Candle list \<Rightarrow> jsnum
     \<Rightarrow> real \<Rightarrow> bool option \<Rightarrow> BackburnerSetup option \<times> Store" where
  "updateExistingSetup_fl rnd cfg now store key0 setup candles rsi price_now htf =
     (let key = getSetupKey (symbol setup) (timeframe setup);
          setup1 = setup\<lparr>currentRSI := rsi, currentPrice := price_now, lastUpdated := now,
                         higherTFBullish :=
                           (case htf of None \<Rightarrow> higherTFBullish setup | Some b \<Rightarrow> Some b)\<rparr>
      in if isSetupInvalidated_fl rnd cfg setup1 candles
         then let setup2 = setup1\<lparr>state := played_out\<rparr>
              in (Some setup2, (store(key0 \<mapsto> setup2))(key := None))
         else let setup2 = setup1\<lparr>state := determineSetupState cfg setup1 rsi\<rparr>
              in if state setup2 = played_out
                 then (Some setup2, (store(key0 \<mapsto> setup2))(key := None))
                 else (Some setup2, (store(key0 \<mapsto> setup2))(key \<mapsto> setup2)))"

section \<open>Definitions in the words of the specification\<close>

text \<open>
  Position \<open>k\<close> holds the first occurrence of the greatest (least) element of a list:
  the extrema search of the specification, with ties resolved to the first occurrence.
\<close>

definition first_max_at :: "real list \<Rightarrow> nat \<Rightarrow> bool" where
  "first_max_at xs k =
     (k < length xs \<and> (\<forall>j < length xs. xs ! j \<le> xs ! k) \<and> (\<forall>j < k. xs ! j < xs ! k))"

definition first_min_at :: "real list \<Rightarrow> nat \<Rightarrow> bool" where
  "first_min_at xs k =
     (k < length xs \<and> (\<forall>j < length xs. xs ! k \<le> xs ! j) \<and> (\<forall>j < k. xs ! k < xs ! j))"

text \<open>
  The smoothed averages of the specification, by the number \<open>k\<close> of the sample, computed
  in floating point as the program computes: the gain (loss) of the step from candle
  \<open>i\<close> to candle \<open>i + 1\<close>, the arithmetic mean of the first \<open>p\<close> of them (summed from
  the left) as the first average, and \<open>(avg * (p - 1) + newSample) / p\<close> for each later
  one.
\<close>

definition change_at :: "rounding \<Rightarrow> Candle list \<Rightarrow> nat \<Rightarrow> jsnum" where
  "change_at rnd cs i = fl_sub rnd (Fin (close (cs ! (i + 1)))) (Fin (close (cs ! i)))"

definition gain_at :: "rounding \<Rightarrow> Candle list \<Rightarrow> nat \<Rightarrow> jsnum" where
  "gain_at rnd cs i = (if js_gt (change_at rnd cs i) (Fin 0) then change_at rnd cs i else Fin 0)"

definition loss_at :: "rounding \<Rightarrow> Candle list \<Rightarrow> nat \<Rightarrow> jsnum" where
  "loss_at rnd cs i =
     (if js_lt (change_at rnd cs i) (Fin 0) then js_abs (change_at rnd cs i) else Fin 0)"

fun avg_gain_spec :: "rounding \<Rightarrow> nat \<Rightarrow> Candle list \<Rightarrow> nat \<Rightarrow> jsnum" where
  "avg_gain_spec rnd p cs 0 =
     fl_div rnd (fl_sum rnd (map (gain_at rnd cs) [0..<p])) (Fin (real p))"
| "avg_gain_spec rnd p cs (Suc k) =
     fl_div rnd
       (fl_add rnd (fl_mul rnd (avg_gain_spec rnd p cs k) (fl_sub rnd (Fin (real p)) (Fin 1)))
          (gain_at rnd cs (p + k)))
       (Fin (real p))"

fun avg_loss_spec :: "rounding \<Rightarrow> nat \<Rightarrow> Candle list \<Rightarrow> nat \<Rightarrow> jsnum" where
  "avg_loss_spec rnd p cs 0 =
     fl_div rnd (fl_sum rnd (map (loss_at rnd cs) [0..<p])) (Fin (real p))"
| "avg_loss_spec rnd p cs (Suc k) =
     fl_div rnd
       (fl_add rnd (fl_mul rnd (avg_loss_spec rnd p cs k) (fl_sub rnd (Fin (real p)) (Fin 1)))
          (loss_at rnd cs (p + k)))
       (Fin (real p))"

text \<open>
  The volume-contraction flag of the specification for an impulse found in the lookback
  window, the last 50 candles: the mean volume of the window's candles from the
  impulse's start through its end against the mean volume of the window's candles after
  the end; false when either interval is empty.
\<close>

definition mean_volume :: "Candle list \<Rightarrow> real" where
  "mean_volume cs = sum_list (map volume cs) / real (length cs)"

definition volume_contraction_spec :: "Candle list \<Rightarrow> Move \<Rightarrow> bool" where
  "volume_contraction_spec candles imp =
     (let window = drop (length candles - 50) candles;
          impulseInterval = take (endIndex imp + 1 - startIndex imp) (drop (startIndex imp) window);
          pullback = drop (endIndex imp + 1) window
      in impulseInterval \<noteq> [] \<and> pullback \<noteq> []
         \<and> mean_volume pullback < mean_volume impulseInterval * (8 / 10))"

section \<open>Example inputs\<close>

text \<open>The thresholds named in the comments of the detector, with the default period.\<close>

definition example_config :: Config where
  "example_config =
     \<lparr>rsiPeriod = 14, rsiOversoldThreshold = 30, rsiDeepOversoldThreshold = 20,
      minImpulsePercent = 5\<rparr>"

definition candle :: "nat \<Rightarrow> real \<Rightarrow> real \<Rightarrow> real \<Rightarrow> real \<Rightarrow> real \<Rightarrow> Candle" where
  "candle t opn hi lo cl vol =
     \<lparr>timestamp = int t, c_open = opn, high = hi, low = lo, close = cl, volume = vol\<rparr>"

definition flat_candle :: "nat \<Rightarrow> Candle" where
  "flat_candle t = candle t 100 100 100 100 1"

text \<open>
  Fifty candles: a low of 90 at index 10, a high of 110 at index 20, and a close that
  falls to 99 and to 98 on the last two candles.
\<close>

definition series_a :: "Candle list" where
  "series_a =
     flat_candle 0 # flat_candle 1 # map flat_candle [2..<10] @ [candle 10 100 100 90 100 1]
     @ map flat_candle [11..<20] @ [candle 20 100 110 100 100 1]
     @ map flat_candle [21..<48] @ [candle 48 100 100 99 99 1, candle 49 99 99 98 98 1]"

definition setup_a :: BackburnerSetup where
  "setup_a =
     \<lparr>symbol = ''BTCUSDT'', timeframe = tf_5m, state = deep_oversold,
      impulseHigh = 110, impulseLow = 90, impulseStartTime = 10, impulseEndTime = 20,
      impulsePercentMove = Fin (200 / 9), currentRSI = Fin 0, rsiAtTrigger = Fin 0,
      currentPrice = 98, entryPrice = Some 98, detectedAt = 1000, triggeredAt = Some 1000,
      lastUpdated = 1000, impulseAvgVolume = Fin 1, pullbackAvgVolume = Fin 1,
      volumeContracting = False, higherTFBullish = None\<rparr>"

text \<open>
  Fifty-one candles, so that the lookback window starts at index 1: the low of 90 at
  index 11, the high of 110 at index 21 on a volume of 1000, the same two falling closes
  at the end.
\<close>

definition series_b :: "Candle list" where
  "series_b =
     flat_candle 0 # flat_candle 1 # map flat_candle [2..<11] @ [candle 11 100 100 90 100 1]
     @ map flat_candle [12..<21] @ [candle 21 100 110 100 100 1000]
     @ map flat_candle [22..<49] @ [candle 49 100 100 99 99 1, candle 50 99 99 98 98 1]"

definition impulse_b :: Move where
  "impulse_b =
     \<lparr>startIndex = 10, endIndex = 20, startPrice = 90, endPrice = 110,
      percentMove = Fin (200 / 9), direction = up\<rparr>"

definition setup_b :: BackburnerSetup where
  "setup_b =
     \<lparr>symbol = ''BTCUSDT'', timeframe = tf_5m, state = deep_oversold,
      impulseHigh = 110, impulseLow = 90, impulseStartTime = 10, impulseEndTime = 20,
      impulsePercentMove = Fin (200 / 9), currentRSI = Fin 0, rsiAtTrigger = Fin 0,
      currentPrice = 98, entryPrice = Some 98, detectedAt = 1000, triggeredAt = Some 1000,
      lastUpdated = 1000, impulseAvgVolume = Fin 1, pullbackAvgVolume = Fin (343 / 10),
      volumeContracting = False, higherTFBullish = None\<rparr>"




text \<open>Four candles with the lowest low at index 1 and the highest high at index 2.\<close>

definition series_e :: "Candle list" where
  "series_e =
     [candle 0 100 101 99 100 1, candle 1 100 100 90 95 1, candle 2 95 110 95 105 1,
      candle 3 105 106 100 104 1]"


text \<open>
  The candles of \<open>series_a\<close> with a last close that rises from 99 to 99.5, which takes
  the oscillator to 35; and a live record in state \<open>triggered\<close>.
\<close>

definition series_f :: "Candle list" where
  "series_f = take 49 series_a @ [candle 49 99 (199 / 2) 99 (199 / 2) 1]"

definition setup_f :: BackburnerSetup where
  "setup_f = setup_a\<lparr>state := triggered, currentRSI := Fin 25\<rparr>"



section \<open>Properties\<close>

subsection \<open>Insufficient data and the update path\<close>

lemma isHigherTFBullish_default: "\<exists>b. isHigherTFBullish hc 20 = Inr b"
  by (cases hc) (auto simp: isHigherTFBullish_def Let_def)

lemma getCurrentRSI_Some:
  "calculateRSI candles p \<noteq> [] \<Longrightarrow>
   getCurrentRSI candles p = Some (rsi_value (last (calculateRSI candles p)))"
  by (simp add: getCurrentRSI_def Let_def)

lemma getCurrentRSI_None: "calculateRSI candles p = [] \<Longrightarrow> getCurrentRSI candles p = None"
  by (simp add: getCurrentRSI_def)

lemma analyzeSymbol_no_data:
  assumes "length candles < 50 \<or> length (calculateRSI candles (rsiPeriod cfg)) < 5"
  shows "analyzeSymbol cfg now store smb tf candles higherTFCandles = Inr (None, store)"
proof (cases "length candles < 50")
  case True
  then show ?thesis by (simp add: analyzeSymbol_def)
next
  case False
  with assms have few: "length (calculateRSI candles (rsiPeriod cfg)) < 5" by simp
  show ?thesis
  proof (cases "calculateRSI candles (rsiPeriod cfg) = []")
    case True
    then show ?thesis
      by (simp add: analyzeSymbol_def Let_def getCurrentRSI_None)
  next
    case nonempty: False
    then show ?thesis
      using few by (simp add: analyzeSymbol_def Let_def getCurrentRSI_Some)
  qed
qed

lemma analyzeSymbol_existing:
  assumes live: "store (getSetupKey smb tf) = Some s"
    and data: "50 \<le> length candles" "5 \<le> length (calculateRSI candles (rsiPeriod cfg))"
  shows "\<exists>htf. (higherTFCandles = None \<longrightarrow> htf = None) \<and>
           analyzeSymbol cfg now store smb tf candles higherTFCandles =
           Inr (updateExistingSetup cfg now store (getSetupKey smb tf) s candles
                  (rsi_value (last (calculateRSI candles (rsiPeriod cfg))))
                  (close (last candles)) htf)"
proof -
  from data(2) have ne: "calculateRSI candles (rsiPeriod cfg) \<noteq> []" by auto
  show ?thesis
  proof (cases higherTFCandles)
    case None
    then show ?thesis
      using live data ne by (simp add: analyzeSymbol_def Let_def getCurrentRSI_Some)
  next
    case (Some hc)
    obtain b where b: "isHigherTFBullish hc 20 = Inr b"
      using isHigherTFBullish_default by blast
    show ?thesis
      using live data ne Some b
      by (intro exI [of _ "Some b"]) (simp add: analyzeSymbol_def Let_def getCurrentRSI_Some)
  qed
qed

subsection \<open>The live set\<close>

lemma timeframe_string_inj: "timeframe_string t = timeframe_string u \<Longrightarrow> t = u"
  by (cases t; cases u) simp_all

lemma getSetupKey_inj:
  assumes "getSetupKey a t = getSetupKey b u"
  shows "a = b \<and> t = u"
proof -
  from assms have "rev (getSetupKey a t) = rev (getSetupKey b u)" by simp
  then have "rev a = rev b \<and> t = u"
    by (cases t; cases u) (simp_all add: getSetupKey_def)
  then show ?thesis by simp
qed

lemma findHighestHigh_loop_index:
  "findHighestHigh_loop cs i h hi = (b, k) \<Longrightarrow> hi < i \<Longrightarrow> k < i + length cs"
proof (induction cs arbitrary: i h hi)
  case Nil
  then show ?case by simp
next
  case (Cons c cs)
  show ?case
  proof (cases "high c > high h")
    case True
    with Cons.prems have "findHighestHigh_loop cs (i + 1) c i = (b, k)" by simp
    from Cons.IH [OF this] show ?thesis by simp
  next
    case False
    with Cons.prems have "findHighestHigh_loop cs (i + 1) h hi = (b, k)" by simp
    from Cons.IH [OF this] Cons.prems show ?thesis by simp
  qed
qed

lemma findLowestLow_loop_index:
  "findLowestLow_loop cs i l li = (b, k) \<Longrightarrow> li < i \<Longrightarrow> k < i + length cs"
proof (induction cs arbitrary: i l li)
  case Nil
  then show ?case by simp
next
  case (Cons c cs)
  show ?case
  proof (cases "low c < low l")
    case True
    with Cons.prems have "findLowestLow_loop cs (i + 1) c i = (b, k)" by simp
    from Cons.IH [OF this] show ?thesis by simp
  next
    case False
    with Cons.prems have "findLowestLow_loop cs (i + 1) l li = (b, k)" by simp
    from Cons.IH [OF this] Cons.prems show ?thesis by simp
  qed
qed

lemma findHighestHigh_index:
  "cs \<noteq> [] \<Longrightarrow> \<exists>e. findHighestHigh cs = Inr e \<and> index e < length cs"
  by (cases cs) (auto simp: findHighestHigh_def split: prod.splits dest!: findHighestHigh_loop_index)

lemma findLowestLow_index:
  "cs \<noteq> [] \<Longrightarrow> \<exists>e. findLowestLow cs = Inr e \<and> index e < length cs"
  by (cases cs) (auto simp: findLowestLow_def split: prod.splits dest!: findLowestLow_loop_index)

lemma detectImpulseMove_bounds:
  assumes "0 < L" "L \<le> length cs"
  shows "\<exists>m. detectImpulseMove cs thr L = Inr m \<and>
           (\<forall>mv. m = Some mv \<longrightarrow> startIndex mv < L \<and> endIndex mv < L)"
proof -
  have len: "length (slice_last L cs) = L"
    using assms by (simp add: slice_last_def)
  then have ne: "slice_last L cs \<noteq> []" using assms by auto
  obtain h where h: "findHighestHigh (slice_last L cs) = Inr h" "index h < L"
    using findHighestHigh_index [OF ne] len by auto
  obtain l where l: "findLowestLow (slice_last L cs) = Inr l" "index l < L"
    using findLowestLow_index [OF ne] len by auto
  show ?thesis
    using assms h l by (auto simp: detectImpulseMove_def downward_move_def Let_def)
qed

lemma detectNewSetup_cases:
  assumes "50 \<le> length candles"
  shows "detectNewSetup cfg now store smb tf candles rsiValues rsi px htf = Inr (None, store)
         \<or> (\<exists>r. detectNewSetup cfg now store smb tf candles rsiValues rsi px htf =
                   Inr (Some r, store(getSetupKey smb tf \<mapsto> r))
                 \<and> symbol r = smb \<and> timeframe r = tf
                 \<and> (state r = triggered \<or> state r = deep_oversold))"
proof -
  obtain m where m: "detectImpulseMove candles (minImpulsePercent cfg) 50 = Inr m"
      "\<forall>mv. m = Some mv \<longrightarrow> startIndex mv < 50 \<and> endIndex mv < 50"
    using detectImpulseMove_bounds [of 50 candles] assms by auto
  show ?thesis
  proof (cases m)
    case None
    with m show ?thesis by (simp add: detectNewSetup_def)
  next
    case (Some mv)
    with m assms have "startIndex mv < length candles" "endIndex mv < length candles" by auto
    with m Some show ?thesis
      by (simp add: detectNewSetup_def Let_def)
  qed
qed

lemma determineSetupState_live:
  "live_state (state s) \<Longrightarrow>
   determineSetupState cfg s rsi = played_out \<or> live_state (determineSetupState cfg s rsi)"
  by (auto simp: determineSetupState_def live_state_def split: if_splits)

lemma store_inv_delete: "store_inv store \<Longrightarrow> store_inv (store(k := None))"
  by (simp add: store_inv_def)

lemma store_inv_update:
  "store_inv store \<Longrightarrow> k = getSetupKey (symbol r) (timeframe r) \<Longrightarrow> live_state (state r)
   \<Longrightarrow> store_inv (store(k \<mapsto> r))"
  by (simp add: store_inv_def)

lemma updateExistingSetup_inv:
  assumes inv: "store_inv store" and live: "store k = Some s"
  shows "store_inv (snd (updateExistingSetup cfg now store k s candles rsi px htf))"
proof -
  from inv live have key: "getSetupKey (symbol s) (timeframe s) = k" and st: "live_state (state s)"
    by (auto simp: store_inv_def)
  define s1 where "s1 = s\<lparr>currentRSI := rsi, currentPrice := px, lastUpdated := now,
      higherTFBullish := (case htf of None \<Rightarrow> higherTFBullish s | Some b \<Rightarrow> Some b)\<rparr>"
  have s1: "symbol s1 = symbol s" "timeframe s1 = timeframe s" "state s1 = state s"
    by (simp_all add: s1_def)
  from st s1 have nxt: "determineSetupState cfg s1 rsi = played_out
      \<or> live_state (determineSetupState cfg s1 rsi)"
    using determineSetupState_live [of s1 cfg rsi] by simp
  have upd: "store_inv (store(k \<mapsto> s1\<lparr>state := determineSetupState cfg s1 rsi\<rparr>))"
    if "live_state (determineSetupState cfg s1 rsi)"
    using inv that key s1 by (intro store_inv_update) simp_all
  show ?thesis
    using nxt key inv upd
    by (auto simp: updateExistingSetup_def Let_def s1_def [symmetric] store_inv_delete
        live_state_def)
qed

lemma analyzeSymbol_inv:
  assumes inv: "store_inv store"
  shows "\<exists>res store'. analyzeSymbol cfg now store smb tf candles higherTFCandles = Inr (res, store')
           \<and> store_inv store'"
proof (cases "length candles < 50 \<or> length (calculateRSI candles (rsiPeriod cfg)) < 5")
  case True
  then show ?thesis
    using inv analyzeSymbol_no_data by blast
next
  case False
  then have data: "50 \<le> length candles" "5 \<le> length (calculateRSI candles (rsiPeriod cfg))"
    by auto
  then have ne: "calculateRSI candles (rsiPeriod cfg) \<noteq> []" by auto
  show ?thesis
  proof (cases "store (getSetupKey smb tf)")
    case (Some s)
    obtain h where "analyzeSymbol cfg now store smb tf candles higherTFCandles =
        Inr (updateExistingSetup cfg now store (getSetupKey smb tf) s candles
               (rsi_value (last (calculateRSI candles (rsiPeriod cfg)))) (close (last candles)) h)"
      using analyzeSymbol_existing [where store = store and smb = smb and tf = tf, OF Some data]
      by blast
    then show ?thesis
      using updateExistingSetup_inv [OF inv Some] by (metis prod.collapse)
  next
    case None
    obtain htf where htf: "(case higherTFCandles of None \<Rightarrow> Inr None
        | Some hc \<Rightarrow> map_sum id Some (isHigherTFBullish hc 20)) = Inr htf"
    proof (cases higherTFCandles)
      case None
      then show ?thesis using that by simp
    next
      case (Some hc)
      then show ?thesis using that isHigherTFBullish_default [of hc] by auto
    qed
    have run: "analyzeSymbol cfg now store smb tf candles higherTFCandles =
        detectNewSetup cfg now store smb tf candles (calculateRSI candles (rsiPeriod cfg))
          (rsi_value (last (calculateRSI candles (rsiPeriod cfg)))) (close (last candles)) htf"
      using None data ne htf by (simp add: analyzeSymbol_def Let_def getCurrentRSI_Some)
    from detectNewSetup_cases [OF data(1)] show ?thesis
      unfolding run
      using inv by (metis live_state_def store_inv_update)
  qed
qed

lemma perform_inv:
  assumes "store_inv store"
  shows "\<exists>store'. perform cfg store op = Inr store' \<and> store_inv store'"
proof (cases op)
  case (Analyze now smb tf candles higherTFCandles)
  then show ?thesis
    using analyzeSymbol_inv [OF assms, of cfg now smb tf candles higherTFCandles] by auto
next
  case (Remove smb tf)
  then show ?thesis using assms by (simp add: removeSetup_def store_inv_delete)
next
  case ClearAll
  then show ?thesis by (simp add: clearAllSetups_def store_inv_def)
qed

lemma perform_all_inv:
  "store_inv store \<Longrightarrow> \<exists>store'. perform_all cfg store ops = Inr store' \<and> store_inv store'"
proof (induction ops arbitrary: store)
  case Nil
  then show ?case by simp
next
  case (Cons op ops)
  from perform_inv [OF Cons.prems] obtain st where st: "perform cfg store op = Inr st" "store_inv st"
    by blast
  from Cons.IH [OF st(2)] st(1) show ?case by simp
qed

subsection \<open>Extrema and the structural move\<close>

lemma first_max_at_snoc:
  assumes "first_max_at xs k"
  shows "first_max_at (xs @ [x]) (if x > xs ! k then length xs else k)"
  using assms by (auto simp: first_max_at_def nth_append less_Suc_eq intro: order.strict_trans2 less_imp_le order.trans)

lemma first_min_at_snoc:
  assumes "first_min_at xs k"
  shows "first_min_at (xs @ [x]) (if x < xs ! k then length xs else k)"
  using assms by (auto simp: first_min_at_def nth_append less_Suc_eq intro: order.strict_trans1 less_imp_le order.trans)

lemma first_max_at_unique: "first_max_at xs k \<Longrightarrow> first_max_at xs k' \<Longrightarrow> k = k'"
  by (metis first_max_at_def linorder_neqE_nat not_less)

lemma first_min_at_unique: "first_min_at xs k \<Longrightarrow> first_min_at xs k' \<Longrightarrow> k = k'"
  by (metis first_min_at_def linorder_neqE_nat not_less)

lemma findHighestHigh_loop_first_max:
  assumes "first_max_at (map high pre) hi" "h = pre ! hi" "i = length pre"
  shows "\<exists>k. findHighestHigh_loop cs i h hi = ((pre @ cs) ! k, k)
           \<and> first_max_at (map high (pre @ cs)) k"
  using assms
proof (induction cs arbitrary: pre h hi i)
  case Nil
  then show ?case by simp
next
  case (Cons c cs)
  have hi: "hi < length pre" using Cons.prems(1) by (simp add: first_max_at_def)
  let ?hi' = "if high c > high h then i else hi"
  let ?h' = "if high c > high h then c else h"
  have step: "first_max_at (map high (pre @ [c])) ?hi'"
    using first_max_at_snoc [OF Cons.prems(1), of "high c"] Cons.prems(2,3) hi
    by (auto split: if_splits)
  have h': "?h' = (pre @ [c]) ! ?hi'"
    using Cons.prems(2,3) hi by (simp add: nth_append)
  have "\<exists>k. findHighestHigh_loop cs (Suc i) ?h' ?hi' = (((pre @ [c]) @ cs) ! k, k)
           \<and> first_max_at (map high ((pre @ [c]) @ cs)) k"
    using Cons.prems(3) by (intro Cons.IH [OF step h']) simp
  then show ?case by (cases "high c > high h") simp_all
qed

lemma findLowestLow_loop_first_min:
  assumes "first_min_at (map low pre) li" "l = pre ! li" "i = length pre"
  shows "\<exists>k. findLowestLow_loop cs i l li = ((pre @ cs) ! k, k)
           \<and> first_min_at (map low (pre @ cs)) k"
  using assms
proof (induction cs arbitrary: pre l li i)
  case Nil
  then show ?case by simp
next
  case (Cons c cs)
  have li: "li < length pre" using Cons.prems(1) by (simp add: first_min_at_def)
  let ?li' = "if low c < low l then i else li"
  let ?l' = "if low c < low l then c else l"
  have step: "first_min_at (map low (pre @ [c])) ?li'"
    using first_min_at_snoc [OF Cons.prems(1), of "low c"] Cons.prems(2,3) li
    by (auto split: if_splits)
  have l': "?l' = (pre @ [c]) ! ?li'"
    using Cons.prems(2,3) li by (simp add: nth_append)
  have "\<exists>k. findLowestLow_loop cs (Suc i) ?l' ?li' = (((pre @ [c]) @ cs) ! k, k)
           \<and> first_min_at (map low ((pre @ [c]) @ cs)) k"
    using Cons.prems(3) by (intro Cons.IH [OF step l']) simp
  then show ?case by (cases "low c < low l") simp_all
qed

lemma findHighestHigh_first_max:
  assumes "cs \<noteq> []" "first_max_at (map high cs) k"
  shows "findHighestHigh cs =
           Inr \<lparr>price = high (cs ! k), index = k, ext_timestamp = timestamp (cs ! k)\<rparr>"
proof -
  obtain c0 rest where cs: "cs = c0 # rest" using assms(1) by (cases cs) auto
  have "first_max_at (map high [c0]) 0" by (simp add: first_max_at_def)
  from findHighestHigh_loop_first_max [OF this, of c0 1 rest]
  obtain k' where k': "findHighestHigh_loop rest 1 c0 0 = (cs ! k', k')"
      "first_max_at (map high cs) k'"
    using cs by auto
  from first_max_at_unique [OF k'(2) assms(2)] k'(1) show ?thesis
    by (simp add: findHighestHigh_def cs)
qed

lemma findLowestLow_first_min:
  assumes "cs \<noteq> []" "first_min_at (map low cs) k"
  shows "findLowestLow cs =
           Inr \<lparr>price = low (cs ! k), index = k, ext_timestamp = timestamp (cs ! k)\<rparr>"
proof -
  obtain c0 rest where cs: "cs = c0 # rest" using assms(1) by (cases cs) auto
  have "first_min_at (map low [c0]) 0" by (simp add: first_min_at_def)
  from findLowestLow_loop_first_min [OF this, of c0 1 rest]
  obtain k' where k': "findLowestLow_loop rest 1 c0 0 = (cs ! k', k')"
      "first_min_at (map low cs) k'"
    using cs by auto
  from first_min_at_unique [OF k'(2) assms(2)] k'(1) show ?thesis
    by (simp add: findLowestLow_def cs)
qed

subsection \<open>The oscillator\<close>

lemma length_close_changes: "length (close_changes cs) = length cs - 1"
  by (induction cs rule: close_changes.induct) simp_all

lemma calculateRSI_loop_length:
  "length gs = length cs \<Longrightarrow> length ls = length cs \<Longrightarrow>
   length (calculateRSI_loop p ag al gs ls cs) = length cs"
proof (induction cs arbitrary: gs ls ag al)
  case Nil
  then show ?case by simp
next
  case (Cons c cs)
  then obtain g gs' l ls' where "gs = g # gs'" "ls = l # ls'"
    by (cases gs; cases ls) auto
  with Cons show ?case by simp
qed

lemma length_calculateRSI:
  "length (calculateRSI cs p) = (if length cs < p + 1 then 0 else length cs - p)"
  by (auto simp: calculateRSI_def Let_def calculateRSI_loop_length length_close_changes)

subsection \<open>Average volumes of a new record\<close>


lemma analyzeSymbol_new:
  assumes "store (getSetupKey smb tf) = None"
    and "analyzeSymbol cfg now store smb tf candles higherTFCandles = Inr (Some r, store')"
  shows "50 \<le> length candles \<and>
         (\<exists>htf. detectNewSetup cfg now store smb tf candles (calculateRSI candles (rsiPeriod cfg))
                  (rsi_value (last (calculateRSI candles (rsiPeriod cfg)))) (close (last candles)) htf
                = Inr (Some r, store'))"
proof -
  have data: "\<not> (length candles < 50 \<or> length (calculateRSI candles (rsiPeriod cfg)) < 5)"
    using assms(2) analyzeSymbol_no_data [of candles cfg now store smb tf higherTFCandles]
    by auto
  then have ne: "calculateRSI candles (rsiPeriod cfg) \<noteq> []" by auto
  show ?thesis
  proof (cases higherTFCandles)
    case None
    with assms data ne show ?thesis
      by (auto simp: analyzeSymbol_def Let_def getCurrentRSI_Some)
  next
    case (Some hc)
    obtain b where "isHigherTFBullish hc 20 = Inr b"
      using isHigherTFBullish_default by blast
    with Some assms data ne show ?thesis
      by (auto simp: analyzeSymbol_def Let_def getCurrentRSI_Some)
  qed
qed

lemma detectNewSetup_volume:
  assumes "detectNewSetup cfg now store smb tf candles rsiValues rsi px htf = Inr (Some r, store')"
    and "detectImpulseMove candles (minImpulsePercent cfg) 50 = Inr (Some imp)"
  shows "pullbackAvgVolume r =
           calculateAvgVolume (drop (endIndex imp + 1) candles)
             (length (drop (endIndex imp + 1) candles))"
    and "impulseAvgVolume r =
           calculateAvgVolume (slice candles (startIndex imp) (endIndex imp + 1))
             (length (slice candles (startIndex imp) (endIndex imp + 1)))"
    and "volumeContracting r =
           isVolumeContracting (slice candles (startIndex imp) (endIndex imp + 1))
             (drop (endIndex imp + 1) candles)"
  using assms by (auto simp: detectNewSetup_def Let_def split: if_splits)

subsection \<open>The volume-contraction flag on a series of window length\<close>

lemma isVolumeContracting_mean:
  "isVolumeContracting xs ys =
     (xs \<noteq> [] \<and> ys \<noteq> [] \<and> mean_volume ys < mean_volume xs * (8 / 10))"
  by (auto simp: isVolumeContracting_def mean_volume_def Let_def)

text \<open>
  On exactly 50 candles the window is the whole series, and the flag of a new record is
  the one the specification describes.
\<close>

lemma volume_flag_at_window_length:
  assumes "length candles = 50"
    and "store (getSetupKey smb tf) = None"
    and "analyzeSymbol cfg now store smb tf candles higherTFCandles = Inr (Some r, store')"
    and "detectImpulseMove candles (minImpulsePercent cfg) 50 = Inr (Some imp)"
  shows "volumeContracting r = volume_contraction_spec candles imp"
proof -
  from analyzeSymbol_new [OF assms(2,3)] obtain htf where
    det: "detectNewSetup cfg now store smb tf candles (calculateRSI candles (rsiPeriod cfg))
            (rsi_value (last (calculateRSI candles (rsiPeriod cfg)))) (close (last candles)) htf
          = Inr (Some r, store')"
    by blast
  show ?thesis
    unfolding detectNewSetup_volume(3) [OF det assms(4)]
    using assms(1)
    by (simp add: isVolumeContracting_mean volume_contraction_spec_def slice_def Let_def)
qed

subsection \<open>Floating point: the exact instance\<close>

text \<open>
  With the rounding \<open>Fin\<close>, which rounds nothing, the floating-point definitions are the
  definitions in exact arithmetic.
\<close>

lemma round_result_exact: "round_result Fin x = x"
  by (cases x) (simp_all add: round_result_def)

lemma fl_exact:
  "fl_add Fin x y = js_add x y" "fl_sub Fin x y = js_sub x y"
  "fl_mul Fin x y = js_mul x y" "fl_div Fin x y = js_div x y"
  by (simp_all add: fl_add_def fl_sub_def fl_mul_def fl_div_def round_result_exact)

lemma fl_sum_exact: "foldl (fl_add Fin) (Fin a) (map Fin xs) = Fin (a + sum_list xs)"
  by (induction xs arbitrary: a) (simp_all add: fl_exact add.assoc)

lemma close_changes_fl_exact: "close_changes_fl Fin cs = map Fin (close_changes cs)"
  by (induction cs rule: close_changes.induct) (simp_all add: fl_exact js_sub_def)

lemma gain_of_fl_exact: "gain_of_fl (Fin x) = Fin (gain_of x)"
  by (simp add: gain_of_fl_def gain_of_def js_gt_def)

lemma loss_of_fl_exact: "loss_of_fl (Fin x) = Fin (loss_of x)"
  by (simp add: loss_of_fl_def loss_of_def)

lemma wilder_fl_exact: "wilder_fl Fin p avg (Fin x) = wilder p avg x"
  by (simp add: wilder_fl_def wilder_def fl_exact js_sub_def)

lemma rsi_of_fl_exact: "rsi_of_fl Fin g l = rsi_of g l"
  by (simp add: rsi_of_fl_def rsi_of_def fl_exact)

lemma calculateRSI_loop_fl_exact:
  "calculateRSI_loop_fl Fin p ag al (map Fin gs) (map Fin ls) cs =
     calculateRSI_loop p ag al gs ls cs"
proof (induction p ag al gs ls cs rule: calculateRSI_loop.induct)
  case (1 period avgGain avgLoss g gs l ls c cs)
  then show ?case by (simp add: wilder_fl_exact rsi_of_fl_exact)
qed simp_all

lemma calculateRSI_fl_exact: "calculateRSI_fl Fin candles period = calculateRSI candles period"
proof -
  have g: "map gain_of_fl (close_changes_fl Fin candles)
      = map Fin (map gain_of (close_changes candles))"
    by (simp add: close_changes_fl_exact gain_of_fl_exact)
  have l: "map loss_of_fl (close_changes_fl Fin candles)
      = map Fin (map loss_of (close_changes candles))"
    by (simp add: close_changes_fl_exact loss_of_fl_exact)
  show ?thesis
    unfolding calculateRSI_fl_def calculateRSI_def Let_def g l fl_sum_def
    by (simp add: take_map drop_map fl_sum_exact fl_exact rsi_of_fl_exact
        calculateRSI_loop_fl_exact del: js_div.simps(1) map_map)
qed

lemma detectImpulseMove_fl_exact:
  "detectImpulseMove_fl Fin candles thr L = detectImpulseMove candles thr L"
  by (simp add: detectImpulseMove_fl_def detectImpulseMove_def downward_move_fl_def
      downward_move_def fl_exact js_sub_def Let_def del: js_div.simps(1) js_mul.simps(1)
      split: sum.splits)

lemma isSetupInvalidated_fl_exact:
  "isSetupInvalidated_fl Fin cfg s candles = isSetupInvalidated cfg s candles"
  by (simp add: isSetupInvalidated_fl_def isSetupInvalidated_def fl_exact js_ge_def js_le_def
      Let_def)

lemma updateExistingSetup_fl_exact:
  "updateExistingSetup_fl Fin cfg now store key0 s candles rsi px htf =
     updateExistingSetup cfg now store key0 s candles rsi px htf"
  by (simp add: updateExistingSetup_fl_def updateExistingSetup_def isSetupInvalidated_fl_exact)


subsection \<open>The oscillator in floating point\<close>

text \<open>
  The accumulator loop of \<open>calculateRSI\<close> computes the averages as the specification
  writes them, with the same operations in the same order, for every rounding.
\<close>

lemma length_close_changes_fl: "length (close_changes_fl rnd cs) = length cs - 1"
  by (induction rnd cs rule: close_changes_fl.induct) simp_all

lemma nth_close_changes_fl:
  "i + 1 < length cs \<Longrightarrow> close_changes_fl rnd cs ! i = change_at rnd cs i"
proof (induction rnd cs arbitrary: i rule: close_changes_fl.induct)
  case (1 rnd a b cs)
  then show ?case by (cases i) (simp_all add: change_at_def)
qed simp_all

lemma gain_of_fl_nth:
  "i + 1 < length cs \<Longrightarrow> map gain_of_fl (close_changes_fl rnd cs) ! i = gain_at rnd cs i"
  by (simp add: length_close_changes_fl nth_close_changes_fl gain_of_fl_def gain_at_def)

lemma loss_of_fl_nth:
  "i + 1 < length cs \<Longrightarrow> map loss_of_fl (close_changes_fl rnd cs) ! i = loss_at rnd cs i"
  by (simp add: length_close_changes_fl nth_close_changes_fl loss_of_fl_def loss_at_def)

lemma take_gains:
  assumes "p < length cs"
  shows "take p (map gain_of_fl (close_changes_fl rnd cs)) = map (gain_at rnd cs) [0..<p]"
proof (rule nth_equalityI)
  show "length (take p (map gain_of_fl (close_changes_fl rnd cs)))
      = length (map (gain_at rnd cs) [0..<p])"
    using assms by (simp add: length_close_changes_fl)
next
  fix i
  assume "i < length (take p (map gain_of_fl (close_changes_fl rnd cs)))"
  then have i: "i < p" by simp
  with assms have "i + 1 < length cs" by simp
  from gain_of_fl_nth [OF this] i
  show "take p (map gain_of_fl (close_changes_fl rnd cs)) ! i
      = map (gain_at rnd cs) [0..<p] ! i"
    by simp
qed

lemma take_losses:
  assumes "p < length cs"
  shows "take p (map loss_of_fl (close_changes_fl rnd cs)) = map (loss_at rnd cs) [0..<p]"
proof (rule nth_equalityI)
  show "length (take p (map loss_of_fl (close_changes_fl rnd cs)))
      = length (map (loss_at rnd cs) [0..<p])"
    using assms by (simp add: length_close_changes_fl)
next
  fix i
  assume "i < length (take p (map loss_of_fl (close_changes_fl rnd cs)))"
  then have i: "i < p" by simp
  with assms have "i + 1 < length cs" by simp
  from loss_of_fl_nth [OF this] i
  show "take p (map loss_of_fl (close_changes_fl rnd cs)) ! i
      = map (loss_at rnd cs) [0..<p] ! i"
    by simp
qed

lemma calculateRSI_loop_fl_length:
  "length gs = length cs \<Longrightarrow> length ls = length cs \<Longrightarrow>
   length (calculateRSI_loop_fl rnd p ag al gs ls cs) = length cs"
proof (induction cs arbitrary: gs ls ag al)
  case Nil
  then show ?case by simp
next
  case (Cons c cs)
  then obtain g gs' l ls' where "gs = g # gs'" "ls = l # ls'"
    by (cases gs; cases ls) auto
  with Cons show ?case by simp
qed

lemma calculateRSI_loop_fl_nth:
  "length gs = length cs \<Longrightarrow> length ls = length cs \<Longrightarrow> k < length cs \<Longrightarrow>
   calculateRSI_loop_fl rnd p ag al gs ls cs ! k =
     \<lparr>rsi_value = rsi_of_fl rnd (foldl (wilder_fl rnd p) ag (take (Suc k) gs))
                    (foldl (wilder_fl rnd p) al (take (Suc k) ls)),
      rsi_timestamp = timestamp (cs ! k)\<rparr>"
proof (induction cs arbitrary: gs ls ag al k)
  case Nil
  then show ?case by simp
next
  case (Cons c cs)
  then obtain g gs' l ls' where eq: "gs = g # gs'" "ls = l # ls'"
    by (cases gs; cases ls) auto
  show ?case
  proof (cases k)
    case 0
    then show ?thesis by (simp add: eq)
  next
    case (Suc k')
    with Cons.prems eq have "length gs' = length cs" "length ls' = length cs" "k' < length cs"
      by simp_all
    from Cons.IH [OF this] Suc show ?thesis by (simp add: eq)
  qed
qed

lemma avg_gain_spec_foldl:
  assumes "p + k < length cs"
  shows "avg_gain_spec rnd p cs k =
     foldl (wilder_fl rnd p)
       (fl_div rnd (fl_sum rnd (take p (map gain_of_fl (close_changes_fl rnd cs))))
          (Fin (real p)))
       (take k (drop p (map gain_of_fl (close_changes_fl rnd cs))))"
  using assms
proof (induction k)
  case 0
  then have "p < length cs" by simp
  from take_gains [OF this] show ?case by simp
next
  case (Suc k)
  then have k: "k < length (drop p (map gain_of_fl (close_changes_fl rnd cs)))"
    by (simp add: length_close_changes_fl)
  have nth: "drop p (map gain_of_fl (close_changes_fl rnd cs)) ! k = gain_at rnd cs (p + k)"
    using Suc.prems gain_of_fl_nth [of "p + k" cs rnd] by (simp add: length_close_changes_fl)
  have "avg_gain_spec rnd p cs (Suc k)
      = wilder_fl rnd p (avg_gain_spec rnd p cs k) (gain_at rnd cs (p + k))"
    by (simp add: wilder_fl_def)
  with Suc take_Suc_conv_app_nth [OF k] nth show ?case
    by simp
qed

lemma avg_loss_spec_foldl:
  assumes "p + k < length cs"
  shows "avg_loss_spec rnd p cs k =
     foldl (wilder_fl rnd p)
       (fl_div rnd (fl_sum rnd (take p (map loss_of_fl (close_changes_fl rnd cs))))
          (Fin (real p)))
       (take k (drop p (map loss_of_fl (close_changes_fl rnd cs))))"
  using assms
proof (induction k)
  case 0
  then have "p < length cs" by simp
  from take_losses [OF this] show ?case by simp
next
  case (Suc k)
  then have k: "k < length (drop p (map loss_of_fl (close_changes_fl rnd cs)))"
    by (simp add: length_close_changes_fl)
  have nth: "drop p (map loss_of_fl (close_changes_fl rnd cs)) ! k = loss_at rnd cs (p + k)"
    using Suc.prems loss_of_fl_nth [of "p + k" cs rnd] by (simp add: length_close_changes_fl)
  have "avg_loss_spec rnd p cs (Suc k)
      = wilder_fl rnd p (avg_loss_spec rnd p cs k) (loss_at rnd cs (p + k))"
    by (simp add: wilder_fl_def)
  with Suc take_Suc_conv_app_nth [OF k] nth show ?case
    by simp
qed

lemma length_calculateRSI_fl:
  "length (calculateRSI_fl rnd cs p) = (if length cs < p + 1 then 0 else length cs - p)"
  by (auto simp: calculateRSI_fl_def Let_def calculateRSI_loop_fl_length length_close_changes_fl)

lemma calculateRSI_fl_nth:
  assumes "p + k < length cs"
  shows "calculateRSI_fl rnd cs p ! k =
     \<lparr>rsi_value = rsi_of_fl rnd (avg_gain_spec rnd p cs k) (avg_loss_spec rnd p cs k),
      rsi_timestamp = timestamp (cs ! (p + k))\<rparr>"
proof (cases k)
  case 0
  with assms show ?thesis
    using avg_gain_spec_foldl [of p 0 cs rnd] avg_loss_spec_foldl [of p 0 cs rnd]
    by (simp add: calculateRSI_fl_def Let_def)
next
  case (Suc k')
  let ?gs = "drop p (map gain_of_fl (close_changes_fl rnd cs))"
  let ?ls = "drop p (map loss_of_fl (close_changes_fl rnd cs))"
  let ?ag = "fl_div rnd (fl_sum rnd (take p (map gain_of_fl (close_changes_fl rnd cs))))
      (Fin (real p))"
  let ?al = "fl_div rnd (fl_sum rnd (take p (map loss_of_fl (close_changes_fl rnd cs))))
      (Fin (real p))"
  have len: "length ?gs = length (drop (p + 1) cs)" "length ?ls = length (drop (p + 1) cs)"
      "k' < length (drop (p + 1) cs)"
    using assms Suc by (simp_all add: length_close_changes_fl)
  have "calculateRSI_fl rnd cs p ! k
      = calculateRSI_loop_fl rnd p ?ag ?al ?gs ?ls (drop (p + 1) cs) ! k'"
    using assms Suc by (simp add: calculateRSI_fl_def Let_def)
  also have "\<dots> =
      \<lparr>rsi_value = rsi_of_fl rnd (foldl (wilder_fl rnd p) ?ag (take (Suc k') ?gs))
                     (foldl (wilder_fl rnd p) ?al (take (Suc k') ?ls)),
       rsi_timestamp = timestamp (drop (p + 1) cs ! k')\<rparr>"
    by (rule calculateRSI_loop_fl_nth [OF len])
  finally have loop: "calculateRSI_fl rnd cs p ! k =
      \<lparr>rsi_value = rsi_of_fl rnd (foldl (wilder_fl rnd p) ?ag (take (Suc k') ?gs))
                     (foldl (wilder_fl rnd p) ?al (take (Suc k') ?ls)),
       rsi_timestamp = timestamp (drop (p + 1) cs ! k')\<rparr>" .
  have g: "foldl (wilder_fl rnd p) ?ag (take (Suc k') ?gs) = avg_gain_spec rnd p cs k"
    unfolding Suc [symmetric] by (rule avg_gain_spec_foldl [OF assms, symmetric])
  have l: "foldl (wilder_fl rnd p) ?al (take (Suc k') ?ls) = avg_loss_spec rnd p cs k"
    unfolding Suc [symmetric] by (rule avg_loss_spec_foldl [OF assms, symmetric])
  have t: "drop (p + 1) cs ! k' = cs ! (p + k)"
    using assms Suc by simp
  show ?thesis
    unfolding loop g l t ..
qed

subsection \<open>Evaluation of the example inputs\<close>

lemmas series_eval = candle_def flat_candle_def
lemmas rsi_eval = calculateRSI_def gain_of_def loss_of_def rsi_of_def wilder_def js_sub_def
  inf_of_sign_def Let_def
lemmas impulse_eval = detectImpulseMove_def downward_move_def slice_last_def findHighestHigh_def
  findLowestLow_def js_ge_def js_le_def inf_of_sign_def Let_def
lemmas volume_eval = slice_def isVolumeContracting_def calculateAvgVolume_def slice_last_def
  inf_of_sign_def Let_def
lemmas detector_eval = analyzeSymbol_def detectNewSetup_def getCurrentRSI_def
  example_config_def getSetupKey_def js_ge_def js_le_def Let_def

lemmas fl_eval = fl_add_def fl_sub_def fl_mul_def fl_div_def round_result_def fl_sum_def
  gain_of_fl_def loss_of_fl_def wilder_fl_def rsi_of_fl_def js_sub_def js_gt_def
  inf_of_sign_def

lemma series_a_length: "length series_a = 50"
  by (simp add: series_a_def)

lemma series_a_close: "close (last series_a) = 98"
  by (simp add: series_a_def series_eval)

lemma series_a_rsi:
  "length (calculateRSI series_a 14) = 36"
  "calculateRSI series_a 14 \<noteq> []"
  "rsi_value (last (calculateRSI series_a 14)) = Fin 0"
  by (simp_all add: series_a_def series_eval rsi_eval)

lemma series_a_oversold_count:
  "length (filter (\<lambda>r. 20 \<le> rsi_timestamp r \<and> js_lt (rsi_value r) (Fin 30))
     (calculateRSI series_a 14)) = 2"
  by (simp add: series_a_def series_eval rsi_eval)

lemma series_a_first_oversold:
  "isFirstOversoldAfterImpulse example_config (calculateRSI series_a 14) 20 50 = False"
  by (simp add: isFirstOversoldAfterImpulse_def example_config_def series_a_def series_eval
      rsi_eval)

lemma series_a_impulse:
  "detectImpulseMove series_a 5 50 =
     Inr (Some \<lparr>startIndex = 10, endIndex = 20, startPrice = 90, endPrice = 110,
                 percentMove = Fin (200 / 9), direction = up\<rparr>)"
  by (simp add: series_a_def series_eval impulse_eval)

lemma series_a_volume:
  "isVolumeContracting (slice series_a 10 21) (drop 21 series_a) = False"
  "length (slice series_a 10 21) = 11"
  "calculateAvgVolume (slice series_a 10 21) 11 = Fin 1"
  "calculateAvgVolume (drop 21 series_a) 29 = Fin 1"
  by (simp_all add: series_a_def series_eval volume_eval)

lemma series_a_times: "timestamp (series_a ! 10) = 10" "timestamp (series_a ! 20) = 20"
  by (simp_all add: series_a_def series_eval)

lemma series_a_new_setup:
  "analyzeSymbol example_config 1000 Map.empty ''BTCUSDT'' tf_5m series_a None =
     Inr (Some setup_a, [''BTCUSDT-5m'' \<mapsto> setup_a])"
  by (simp add: detector_eval series_a_length series_a_close series_a_rsi
      series_a_first_oversold [unfolded example_config_def] series_a_impulse series_a_volume
      series_a_times setup_a_def)

lemma series_b_length: "length series_b = 51"
  by (simp add: series_b_def)

lemma series_b_close: "close (last series_b) = 98"
  by (simp add: series_b_def series_eval)

lemma series_b_rsi:
  "length (calculateRSI series_b 14) = 37"
  "calculateRSI series_b 14 \<noteq> []"
  "rsi_value (last (calculateRSI series_b 14)) = Fin 0"
  by (simp_all add: series_b_def series_eval rsi_eval)

lemma series_b_first_oversold:
  "isFirstOversoldAfterImpulse example_config (calculateRSI series_b 14) 20 51 = False"
  by (simp add: isFirstOversoldAfterImpulse_def example_config_def series_b_def series_eval
      rsi_eval)

lemma series_b_impulse: "detectImpulseMove series_b 5 50 = Inr (Some impulse_b)"
  by (simp add: series_b_def series_eval impulse_eval impulse_b_def)

lemma series_b_volume:
  "isVolumeContracting (slice series_b 10 21) (drop 21 series_b) = False"
  "length (slice series_b 10 21) = 11"
  "calculateAvgVolume (slice series_b 10 21) 11 = Fin 1"
  "calculateAvgVolume (drop 21 series_b) 30 = Fin (343 / 10)"
  by (simp_all add: series_b_def series_eval volume_eval)

lemma series_b_times: "timestamp (series_b ! 10) = 10" "timestamp (series_b ! 20) = 20"
  by (simp_all add: series_b_def series_eval)

lemma series_b_new_setup:
  "analyzeSymbol example_config 1000 Map.empty ''BTCUSDT'' tf_5m series_b None =
     Inr (Some setup_b, [''BTCUSDT-5m'' \<mapsto> setup_b])"
  by (simp add: detector_eval series_b_length series_b_close series_b_rsi
      series_b_first_oversold [unfolded example_config_def]
      series_b_impulse [unfolded impulse_b_def] series_b_volume
      series_b_times setup_b_def)

lemma series_b_spec: "volume_contraction_spec series_b impulse_b = True"
  by (simp add: volume_contraction_spec_def mean_volume_def impulse_b_def series_b_def
      series_eval Let_def)

















lemma series_f_length: "length series_f = 50"
  by (simp add: series_f_def series_a_def)

lemma series_f_close: "close (last series_f) = 199 / 2"
  by (simp add: series_f_def series_eval)

lemma series_f_rsi:
  "length (calculateRSI series_f 14) = 36"
  "calculateRSI series_f 14 \<noteq> []"
  "rsi_value (last (calculateRSI series_f 14)) = Fin 35"
  by (simp_all add: series_f_def series_a_def series_eval rsi_eval)

lemma series_a_tail:
  "drop 35 series_a =
     map flat_candle [35..<48] @ [candle 48 100 100 99 99 1, candle 49 99 99 98 98 1]"
  by (simp add: series_a_def)

lemma series_a_tail_averages:
  "avg_gain_spec Fin 14 (drop 35 series_a) 0 = Fin 0"
  "avg_loss_spec Fin 14 (drop 35 series_a) 0 = Fin (1 / 7)"
proof -
  have len: "14 + 0 < length (drop 35 series_a)"
    by (simp add: series_a_length)
  show "avg_gain_spec Fin 14 (drop 35 series_a) 0 = Fin 0"
    unfolding avg_gain_spec_foldl [OF len]
    by (simp add: series_a_tail series_eval fl_eval)
  show "avg_loss_spec Fin 14 (drop 35 series_a) 0 = Fin (1 / 7)"
    unfolding avg_loss_spec_foldl [OF len]
    by (simp add: series_a_tail series_eval fl_eval)
qed

lemma series_a_update:
  "analyzeSymbol example_config 2000 [''BTCUSDT-5m'' \<mapsto> setup_a] ''BTCUSDT'' tf_5m series_a None
   = Inr (Some (setup_a\<lparr>lastUpdated := 2000\<rparr>),
          [''BTCUSDT-5m'' \<mapsto> setup_a\<lparr>lastUpdated := 2000\<rparr>])"
  by (simp add: detector_eval series_a_length series_a_close series_a_rsi
      updateExistingSetup_def isSetupInvalidated_def determineSetupState_def setup_a_def)

lemma series_e_first_max: "first_max_at (map high (drop (length series_e - 3) series_e)) 1"
  by (simp add: first_max_at_def series_e_def series_eval less_Suc_eq nth_Cons' all_conj_distrib)

lemma series_e_first_min: "first_min_at (map low (drop (length series_e - 3) series_e)) 0"
  by (simp add: first_min_at_def series_e_def series_eval less_Suc_eq nth_Cons' all_conj_distrib)

lemma burst_run:
  "limiter_run rateLimiter 0 burst =
     Some \<lparr>maxConcurrent = 10, minDelayMs = 50, queue = [], running = 20,
            lastRequestTime = 1050, sleeping = [],
            in_flight = 0 # 1 # [2..<20],
            dispatched = (0, 1000) # map (\<lambda>i. (i, 1050)) (1 # [2..<20])\<rparr>"
  by (simp add: burst_def rateLimiter_def execute_def run_def dispatch_def timer_fires_def
      Let_def)

section \<open>The claims\<close>

text \<open>
  Claim C1. With at least 50 candles, at least 5 oscillator samples, no record for the
  key, a qualifying upward impulse and a current price strictly between the impulse's
  start and end prices, a new record is to be created only when at most one oscillator
  sample at or after the impulse's end is below the oversold threshold. The detector does
  not do so: \<open>detectNewSetup\<close> gives up only when the reading is not the first
  oversold one and, in addition, the current oscillator is not below the threshold. On
  \<open>series_a\<close> the two samples of the candles 48 and 49, both after the impulse's end at
  candle 20, are below 30, \<open>isFirstOversoldAfterImpulse\<close> is false, and the record
  \<open>setup_a\<close> is created and stored all the same.
\<close>

theorem repeated_oversold_creates_record:
  "analyzeSymbol example_config 1000 Map.empty ''BTCUSDT'' tf_5m series_a None =
     Inr (Some setup_a, [''BTCUSDT-5m'' \<mapsto> setup_a])
   \<and> length (filter (\<lambda>r. impulseEndTime setup_a \<le> rsi_timestamp r
                          \<and> js_lt (rsi_value r) (Fin (rsiOversoldThreshold example_config)))
               (calculateRSI series_a (rsiPeriod example_config))) = 2
   \<and> \<not> isFirstOversoldAfterImpulse example_config
         (calculateRSI series_a (rsiPeriod example_config)) 20 (length series_a)"
  using series_a_new_setup series_a_oversold_count series_a_first_oversold
  by (simp add: setup_a_def example_config_def series_a_length)



text \<open>
  Claim C3. \<open>updateExistingSetup\<close> in floating point, for every rounding, on a record
  stored under its own key. When none of the three invalidation tests of the program
  holds (the last close is below the impulse low; the state is \<open>triggered\<close> or
  \<open>deep_oversold\<close> and the last close is at least the product \<open>impulseHigh * 0.99\<close> as
  the program computes it; the state is \<open>bouncing\<close> and the oscillator is below the
  oversold threshold), the new state \<open>nxt\<close> follows from the previous state and the
  current oscillator by the table: below the deep threshold \<open>deep_oversold\<close>; otherwise
  below the oversold threshold \<open>triggered\<close>; otherwise from \<open>triggered\<close> or
  \<open>deep_oversold\<close> strictly above 40 \<open>played_out\<close> and else \<open>bouncing\<close>; from
  \<open>bouncing\<close> strictly above 50 \<open>played_out\<close> and else \<open>bouncing\<close>; in every other
  case unchanged. The record is returned with that state and the new oscillator, price
  and time; it is removed from the live set when the state is \<open>played_out\<close> and stored
  otherwise.
\<close>

theorem state_progression_table:
  assumes wf: "getSetupKey (symbol s) (timeframe s) = key0"
    and valid:
      "\<not> close (last candles) < impulseLow s"
      "\<not> ((state s = triggered \<or> state s = deep_oversold)
          \<and> js_ge (Fin (close (last candles)))
                (fl_mul rnd (Fin (impulseHigh s)) (rnd (99 / 100))))"
      "\<not> (state s = bouncing \<and> js_lt rsi (Fin (rsiOversoldThreshold cfg)))"
    and nxt: "nxt =
      (if js_lt rsi (Fin (rsiDeepOversoldThreshold cfg)) then deep_oversold
       else if js_lt rsi (Fin (rsiOversoldThreshold cfg)) then triggered
       else if state s = triggered \<or> state s = deep_oversold
         then (if js_gt rsi (Fin 40) then played_out else bouncing)
       else if state s = bouncing
         then (if js_gt rsi (Fin 50) then played_out else bouncing)
       else state s)"
    and r: "r = s\<lparr>currentRSI := rsi, currentPrice := px, lastUpdated := now,
                   higherTFBullish := (case htf of None \<Rightarrow> higherTFBullish s | Some b \<Rightarrow> Some b),
                   state := nxt\<rparr>"
  shows "updateExistingSetup_fl rnd cfg now store key0 s candles rsi px htf =
           (Some r, if nxt = played_out then store(key0 := None) else store(key0 \<mapsto> r))"
proof -
  define s1 where "s1 = s\<lparr>currentRSI := rsi, currentPrice := px, lastUpdated := now,
      higherTFBullish := (case htf of None \<Rightarrow> higherTFBullish s | Some b \<Rightarrow> Some b)\<rparr>"
  have ok: "\<not> isSetupInvalidated_fl rnd cfg s1 candles"
    using valid by (auto simp: isSetupInvalidated_fl_def s1_def)
  have det: "determineSetupState cfg s1 rsi = nxt"
    by (simp add: determineSetupState_def nxt s1_def)
  have "r = s1\<lparr>state := nxt\<rparr>"
    by (simp add: r s1_def)
  then show ?thesis
    using wf ok det by (simp add: updateExistingSetup_fl_def Let_def s1_def [symmetric])
qed

theorem state_progression_table_witness:
  "getSetupKey (symbol setup_f) (timeframe setup_f) = ''BTCUSDT-5m''
   \<and> state setup_f = triggered
   \<and> impulseLow setup_f \<le> close (last series_f)
   \<and> \<not> js_ge (Fin (close (last series_f))) (fl_mul Fin (Fin (impulseHigh setup_f)) (Fin (99 / 100)))
   \<and> updateExistingSetup_fl Fin example_config 2000 [''BTCUSDT-5m'' \<mapsto> setup_f] ''BTCUSDT-5m''
        setup_f series_f (Fin 35) (199 / 2) None =
       (Some (setup_f\<lparr>currentRSI := Fin 35, currentPrice := 199 / 2, lastUpdated := 2000,
                state := bouncing\<rparr>),
        [''BTCUSDT-5m'' \<mapsto>
           setup_f\<lparr>currentRSI := Fin 35, currentPrice := 199 / 2, lastUpdated := 2000,
             state := bouncing\<rparr>])"
proof -
  have wf: "getSetupKey (symbol setup_f) (timeframe setup_f) = ''BTCUSDT-5m''"
    by (simp add: setup_f_def setup_a_def getSetupKey_def)
  have st: "state setup_f = triggered" "impulseLow setup_f \<le> close (last series_f)"
      "\<not> js_ge (Fin (close (last series_f)))
          (fl_mul Fin (Fin (impulseHigh setup_f)) (Fin (99 / 100)))"
    by (simp_all add: setup_f_def setup_a_def series_f_close fl_exact js_ge_def js_le_def)
  have valid: "\<not> close (last series_f) < impulseLow setup_f"
      "\<not> ((state setup_f = triggered \<or> state setup_f = deep_oversold)
          \<and> js_ge (Fin (close (last series_f)))
                (fl_mul Fin (Fin (impulseHigh setup_f)) (Fin (99 / 100))))"
      "\<not> (state setup_f = bouncing \<and> js_lt (Fin 35) (Fin (rsiOversoldThreshold example_config)))"
    using st by simp_all
  have nxt: "bouncing =
      (if js_lt (Fin 35) (Fin (rsiDeepOversoldThreshold example_config)) then deep_oversold
       else if js_lt (Fin 35) (Fin (rsiOversoldThreshold example_config)) then triggered
       else if state setup_f = triggered \<or> state setup_f = deep_oversold
         then (if js_gt (Fin 35) (Fin 40) then played_out else bouncing)
       else if state setup_f = bouncing
         then (if js_gt (Fin 35) (Fin 50) then played_out else bouncing)
       else state setup_f)"
    using st by (simp add: example_config_def js_gt_def)
  from state_progression_table [OF wf valid nxt refl, where now = 2000 and px = "199 / 2"
      and htf = None and store = "[''BTCUSDT-5m'' \<mapsto> setup_f]"]
  have "updateExistingSetup_fl Fin example_config 2000 [''BTCUSDT-5m'' \<mapsto> setup_f]
        ''BTCUSDT-5m'' setup_f series_f (Fin 35) (199 / 2) None =
       (Some (setup_f\<lparr>currentRSI := Fin 35, currentPrice := 199 / 2, lastUpdated := 2000,
                state := bouncing\<rparr>),
        [''BTCUSDT-5m'' \<mapsto>
           setup_f\<lparr>currentRSI := Fin 35, currentPrice := 199 / 2, lastUpdated := 2000,
             state := bouncing\<rparr>])"
    by (simp add: setup_f_def setup_a_def)
  with wf st show ?thesis by simp
qed

text \<open>
  Claim C4. The volume-contraction flag of a created record is to compare the mean volume
  of the candles of the impulse interval with the mean volume of the candles after the
  impulse's end, for every input length. The detector slices the whole series with the
  indices \<open>detectImpulseMove\<close> counts from the start of the 50-candle window, so on a
  longer series it reads other candles. On the 51 candles of \<open>series_b\<close> the impulse runs
  from candle 11 to candle 21, whose volume is 1000: the pullback's mean volume of 1 is
  below 80% of the impulse's, and the flag of the specification is true; the detector
  averages the candles 10 to 20 against the candles from 21 on and stores false.
  (On exactly 50 candles both agree: lemma \<open>volume_flag_at_window_length\<close>.)
\<close>

theorem volume_flag_reads_wrong_candles:
  "analyzeSymbol example_config 1000 Map.empty ''BTCUSDT'' tf_5m series_b None =
     Inr (Some setup_b, [''BTCUSDT-5m'' \<mapsto> setup_b])
   \<and> detectImpulseMove series_b (minImpulsePercent example_config) 50 = Inr (Some impulse_b)
   \<and> volumeContracting setup_b = False
   \<and> volume_contraction_spec series_b impulse_b = True"
  using series_b_new_setup series_b_impulse series_b_spec
  by (simp add: setup_b_def example_config_def)

text \<open>
  Claim C5. \<open>detectImpulseMove\<close> in floating point, for every rounding. For a positive
  lookback \<open>L\<close> it returns no move when fewer than \<open>L\<close> candles are given. Otherwise
  let \<open>hi\<close> and \<open>lo\<close> be the positions, counted in the window of the last \<open>L\<close>
  candles, of the first highest high \<open>H\<close> and the first lowest low \<open>Lw\<close>. If \<open>lo\<close> is
  before \<open>hi\<close> and \<open>upMove\<close>, the number the program computes for
  \<open>(H - Lw) / Lw * 100\<close>, is at least the threshold, the result is an up move from \<open>lo\<close>
  at \<open>Lw\<close> to \<open>hi\<close> at \<open>H\<close>; if \<open>hi\<close> is before \<open>lo\<close> and \<open>downMove\<close>, the number
  computed for \<open>(H - Lw) / H * 100\<close>, is at least the threshold, a down move from \<open>hi\<close>
  at \<open>H\<close> to \<open>lo\<close> at \<open>Lw\<close>; in every other case, both extrema on one candle
  included, no move. The two percentages are rounded after the subtraction, after the
  division and after the product, so they can differ from the real quotients in the last
  places; the threshold is compared with the computed number.
\<close>

theorem structural_move_detector:
  assumes "0 < L"
    and "w = drop (length cs - L) cs"
    and "L \<le> length cs \<longrightarrow> first_max_at (map high w) hi \<and> first_min_at (map low w) lo"
    and "H = high (w ! hi)" and "Lw = low (w ! lo)"
    and "upMove = fl_mul rnd (fl_div rnd (fl_sub rnd (Fin H) (Fin Lw)) (Fin Lw)) (Fin 100)"
    and "downMove = fl_mul rnd (fl_div rnd (fl_sub rnd (Fin H) (Fin Lw)) (Fin H)) (Fin 100)"
  shows "detectImpulseMove_fl rnd cs thr L =
           Inr (if length cs < L then None
                else if lo < hi \<and> js_ge upMove (Fin thr)
                then Some \<lparr>startIndex = lo, endIndex = hi, startPrice = Lw, endPrice = H,
                            percentMove = upMove, direction = up\<rparr>
                else if hi < lo \<and> js_ge downMove (Fin thr)
                then Some \<lparr>startIndex = hi, endIndex = lo, startPrice = H, endPrice = Lw,
                            percentMove = downMove, direction = down\<rparr>
                else None)"
proof (cases "length cs < L")
  case True
  then show ?thesis by (simp add: detectImpulseMove_fl_def)
next
  case False
  then have w: "slice_last L cs = w" "w \<noteq> []"
    using assms(1,2) by (auto simp: slice_last_def)
  from False assms(3) have ext: "first_max_at (map high w) hi" "first_min_at (map low w) lo"
    by auto
  show ?thesis
    using False assms(4-7)
    by (simp add: detectImpulseMove_fl_def downward_move_fl_def Let_def w
        findHighestHigh_first_max [OF w(2) ext(1)] findLowestLow_first_min [OF w(2) ext(2)])
qed

theorem structural_move_detector_witness:
  "(0::nat) < 3
   \<and> first_max_at (map high (drop (length series_e - 3) series_e)) 1
   \<and> first_min_at (map low (drop (length series_e - 3) series_e)) 0
   \<and> detectImpulseMove_fl Fin series_e 5 3 =
       Inr (Some \<lparr>startIndex = 0, endIndex = 1, startPrice = 90, endPrice = 110,
                   percentMove = Fin (200 / 9), direction = up\<rparr>)"
proof -
  let ?w = "drop (length series_e - 3) series_e"
  have len: "length series_e = 4"
    by (simp add: series_e_def)
  have H: "(110::real) = high (?w ! 1)" and Lw: "(90::real) = low (?w ! 0)"
    by (simp_all add: series_e_def series_eval)
  have ext: "3 \<le> length series_e \<longrightarrow>
      first_max_at (map high ?w) 1 \<and> first_min_at (map low ?w) 0"
    using series_e_first_max series_e_first_min by simp
  have pos: "0 < (3::nat)" by simp
  from structural_move_detector [OF pos refl ext H Lw refl refl, of Fin 5]
  show ?thesis
    using series_e_first_max series_e_first_min
    by (simp add: len js_ge_def js_le_def fl_exact js_sub_def)
qed

text \<open>
  Claim C6. \<open>calculateRSI\<close> in floating point, for every rounding. For \<open>n\<close> candles and
  a period \<open>p\<close> it returns the empty sequence when \<open>n < p + 1\<close> and otherwise \<open>n - p\<close>
  samples. Sample \<open>k\<close> carries the time stamp of candle \<open>p + k\<close>, and its value is 100
  when the average loss is exactly 0 and \<open>100 - 100 / (1 + avgGain / avgLoss)\<close>
  otherwise, for the averages of the specification: the first ones the sums of the first
  \<open>p\<close> gains and losses divided by \<open>p\<close>, each later one \<open>(avg * (p - 1) + newSample) / p\<close>,
  every operation rounded as the program rounds it.
\<close>

theorem oscillator_samples:
  "(length cs < p + 1 \<longrightarrow> calculateRSI_fl rnd cs p = [])
   \<and> (p + 1 \<le> length cs \<longrightarrow> length (calculateRSI_fl rnd cs p) = length cs - p)
   \<and> (\<forall>k. p + k < length cs \<longrightarrow>
         rsi_timestamp (calculateRSI_fl rnd cs p ! k) = timestamp (cs ! (p + k))
         \<and> rsi_value (calculateRSI_fl rnd cs p ! k) =
             (if js_eq (avg_loss_spec rnd p cs k) (Fin 0) then Fin 100
              else fl_sub rnd (Fin 100)
                     (fl_div rnd (Fin 100)
                        (fl_add rnd (Fin 1)
                           (fl_div rnd (avg_gain_spec rnd p cs k) (avg_loss_spec rnd p cs k))))))"
  using length_calculateRSI_fl [of rnd cs p]
  by (auto simp: calculateRSI_fl_nth rsi_of_fl_def)

theorem oscillator_samples_witness:
  "14 + 1 \<le> length (drop 35 series_a)
   \<and> length (calculateRSI_fl Fin (drop 35 series_a) 14) = 1
   \<and> rsi_timestamp (calculateRSI_fl Fin (drop 35 series_a) 14 ! 0) = 49
   \<and> avg_loss_spec Fin 14 (drop 35 series_a) 0 = Fin (1 / 7)
   \<and> rsi_value (calculateRSI_fl Fin (drop 35 series_a) 14 ! 0) = Fin 0"
proof -
  have len: "length (drop 35 series_a) = 15"
    by (simp add: series_a_length)
  have t: "timestamp (drop 35 series_a ! (14 + 0)) = 49"
    by (simp add: series_a_tail series_eval)
  from oscillator_samples [of "drop 35 series_a" 14 Fin] len
  have "length (calculateRSI_fl Fin (drop 35 series_a) 14) = 1"
    and "rsi_timestamp (calculateRSI_fl Fin (drop 35 series_a) 14 ! 0)
         = timestamp (drop 35 series_a ! (14 + 0))"
    and "rsi_value (calculateRSI_fl Fin (drop 35 series_a) 14 ! 0) =
          (if js_eq (avg_loss_spec Fin 14 (drop 35 series_a) 0) (Fin 0) then Fin 100
           else fl_sub Fin (Fin 100)
                  (fl_div Fin (Fin 100)
                     (fl_add Fin (Fin 1)
                        (fl_div Fin (avg_gain_spec Fin 14 (drop 35 series_a) 0)
                           (avg_loss_spec Fin 14 (drop 35 series_a) 0)))))"
    by (simp_all del: avg_gain_spec.simps avg_loss_spec.simps)
  then show ?thesis
    using len t
    by (simp add: series_a_tail_averages fl_exact js_sub_def
        del: avg_gain_spec.simps avg_loss_spec.simps)
qed

text \<open>
  Claim C7. After every sequence of evaluate-and-update, remove and clear operations on
  a fresh detector no call has raised, every record of the live set is stored under the
  key of its own symbol and timeframe, and its state is \<open>triggered\<close>, \<open>deep_oversold\<close>
  or \<open>bouncing\<close>: never \<open>watching\<close>, never \<open>played_out\<close>. Two records of the live set
  with the same symbol and timeframe are therefore one entry, and the keys of different
  pairs of symbol and timeframe differ.
\<close>

theorem live_set_invariant:
  "\<exists>store. perform_all cfg Map.empty ops = Inr store
     \<and> (\<forall>k r. store k = Some r \<longrightarrow>
            k = getSetupKey (symbol r) (timeframe r)
            \<and> (state r = triggered \<or> state r = deep_oversold \<or> state r = bouncing))
     \<and> (\<forall>k k' r r'. store k = Some r \<and> store k' = Some r'
            \<and> symbol r = symbol r' \<and> timeframe r = timeframe r' \<longrightarrow> k = k')
     \<and> (\<forall>a t b u. getSetupKey a t = getSetupKey b u \<longrightarrow> a = b \<and> t = u)"
proof -
  have "store_inv Map.empty" by (simp add: store_inv_def)
  from perform_all_inv [OF this] obtain store where
    st: "perform_all cfg Map.empty ops = Inr store" "store_inv store" by blast
  have inj: "\<forall>a t b u. getSetupKey a t = getSetupKey b u \<longrightarrow> a = b \<and> t = u"
    using getSetupKey_inj by blast
  from st(2) have "(\<forall>k r. store k = Some r \<longrightarrow>
            k = getSetupKey (symbol r) (timeframe r)
            \<and> (state r = triggered \<or> state r = deep_oversold \<or> state r = bouncing))
     \<and> (\<forall>k k' r r'. store k = Some r \<and> store k' = Some r'
            \<and> symbol r = symbol r' \<and> timeframe r = timeframe r' \<longrightarrow> k = k')"
    unfolding store_inv_def live_state_def by metis
  with st(1) inj show ?thesis by blast
qed

theorem live_set_invariant_witness:
  "perform_all example_config Map.empty
     [Analyze 1000 ''BTCUSDT'' tf_5m series_a None,
      Analyze 2000 ''BTCUSDT'' tf_5m series_a None]
   = Inr [''BTCUSDT-5m'' \<mapsto> setup_a\<lparr>lastUpdated := 2000\<rparr>]
   \<and> ''BTCUSDT-5m'' = getSetupKey (symbol (setup_a\<lparr>lastUpdated := 2000\<rparr>))
                          (timeframe (setup_a\<lparr>lastUpdated := 2000\<rparr>))
   \<and> (state (setup_a\<lparr>lastUpdated := 2000\<rparr>) = triggered
        \<or> state (setup_a\<lparr>lastUpdated := 2000\<rparr>) = deep_oversold
        \<or> state (setup_a\<lparr>lastUpdated := 2000\<rparr>) = bouncing)"
proof -
  let ?ops = "[Analyze 1000 ''BTCUSDT'' tf_5m series_a None,
      Analyze 2000 ''BTCUSDT'' tf_5m series_a None]"
  let ?r = "setup_a\<lparr>lastUpdated := 2000\<rparr>"
  have run: "perform_all example_config Map.empty ?ops = Inr [''BTCUSDT-5m'' \<mapsto> ?r]"
    by (simp add: series_a_new_setup series_a_update)
  from live_set_invariant [of example_config ?ops] obtain store where
    store: "perform_all example_config Map.empty ?ops = Inr store"
    and inv: "\<forall>k r. store k = Some r \<longrightarrow>
            k = getSetupKey (symbol r) (timeframe r)
            \<and> (state r = triggered \<or> state r = deep_oversold \<or> state r = bouncing)"
    by blast
  from store run have "store = [''BTCUSDT-5m'' \<mapsto> ?r]" by simp
  then have "store ''BTCUSDT-5m'' = Some ?r" by simp
  with inv have "''BTCUSDT-5m'' = getSetupKey (symbol ?r) (timeframe ?r)
      \<and> (state ?r = triggered \<or> state ?r = deep_oversold \<or> state ?r = bouncing)"
    by blast
  with run show ?thesis by blast
qed

text \<open>
  Claim C8. With fewer than 50 candles, or fewer than 5 oscillator samples,
  \<open>analyzeSymbol\<close> returns no result, raises nothing and leaves the live set as it was,
  whether or not it holds a record for the key.
\<close>

theorem analyzeSymbol_insufficient_data:
  assumes "length candles < 50 \<or> length (calculateRSI candles (rsiPeriod cfg)) < 5"
  shows "analyzeSymbol cfg now store smb tf candles higherTFCandles = Inr (None, store)"
  using assms by (rule analyzeSymbol_no_data)

theorem analyzeSymbol_insufficient_data_witness:
  "length (take 49 series_a) < 50
   \<and> analyzeSymbol example_config 2000 [''BTCUSDT-5m'' \<mapsto> setup_a] ''BTCUSDT'' tf_5m
        (take 49 series_a) None
      = Inr (None, [''BTCUSDT-5m'' \<mapsto> setup_a])
   \<and> length (calculateRSI series_a (rsiPeriod (example_config\<lparr>rsiPeriod := 46\<rparr>))) < 5
   \<and> analyzeSymbol (example_config\<lparr>rsiPeriod := 46\<rparr>) 2000 [''BTCUSDT-5m'' \<mapsto> setup_a]
        ''BTCUSDT'' tf_5m series_a None
      = Inr (None, [''BTCUSDT-5m'' \<mapsto> setup_a])"
proof -
  have short: "length (take 49 series_a) < 50" by simp
  have few: "length (calculateRSI series_a (rsiPeriod (example_config\<lparr>rsiPeriod := 46\<rparr>))) < 5"
    by (simp add: length_calculateRSI series_a_length)
  from analyzeSymbol_insufficient_data [of "take 49 series_a" example_config]
    analyzeSymbol_insufficient_data [of series_a "example_config\<lparr>rsiPeriod := 46\<rparr>"]
    short few
  show ?thesis by blast
qed

text \<open>
  Claim C9. The limiter made by \<open>new RateLimiter(10, 50)\<close> is to keep at most 10
  requests in flight and at least 50 time units between the starts of any two dispatches.
  It does not: \<open>run\<close> increments \<open>running\<close> and sets \<open>lastRequestTime\<close> only after its
  \<open>await sleep(...)\<close>, so requests submitted while others sleep all pass the test
  \<open>running < maxConcurrent\<close> and all sleep until the same moment. After the twenty
  submissions of \<open>burst\<close> at time 1000 and the nineteen timers at time 1050, twenty
  requests are in flight, nineteen of them dispatched at the same time 1050, and the queue
  has never held a request.
\<close>

theorem burst_exceeds_rate_limits:
  "map_option running (limiter_run rateLimiter 0 burst) = Some 20
   \<and> map_option queue (limiter_run rateLimiter 0 burst) = Some []
   \<and> map_option (length \<circ> in_flight) (limiter_run rateLimiter 0 burst) = Some 20
   \<and> map_option (map snd \<circ> dispatched) (limiter_run rateLimiter 0 burst)
       = Some (1000 # replicate 19 1050)"
  by (simp add: burst_run numeral_eq_Suc)




end
